theory Spec2Isabelle
  imports
    Complex_Main
    "HOL-Library.AList"
    "HOL-Library.Char_ord"
    "HOL-Library.List_Lexorder"
    "HOL-Library.Multiset"
begin

section \<open>Numbers and strings of the order page\<close>

text \<open>
  A JavaScript Number is modelled by an exact rational: additions are exact, and
  \<open>Number(x.toFixed(2))\<close> is the rounding of \<open>x\<close> to two decimals with ties away
  from zero (\<open>toFixed\<close> rounds the magnitude and picks the larger candidate on a tie).
  The code computes on IEEE doubles. On amounts of whole cents both computations give
  the same two-decimal result: the double sum is within rounding error of a whole cent,
  far from a tie. On other amounts they can differ: the literal 1.005 is a double just
  below 1.005, which the code rounds to 1.00 and this function to 1.01. The equalities
  about rounded prices below are therefore stated on amounts of whole cents or
  evaluated on inputs away from any tie; that the rounding is monotone holds for
  doubles as well.
\<close>

definition toFixed2 :: "rat \<Rightarrow> rat" where
  "toFixed2 x =
     (if x < 0 then - (of_int \<lfloor>(- x) * 100 + 1 / 2\<rfloor> / 100)
      else of_int \<lfloor>x * 100 + 1 / 2\<rfloor> / 100)"

definition digit_char :: "nat \<Rightarrow> char" where
  "digit_char d = char_of (48 + d)"

text \<open>\<open>String(n)\<close> and \<open>`${n}`\<close> for a non-negative integer id: its decimal digits.\<close>

fun string_of_nat :: "nat \<Rightarrow> string" where
  "string_of_nat n =
     (if n < 10 then [digit_char n]
      else string_of_nat (n div 10) @ [digit_char (n mod 10)])"

declare string_of_nat.simps [simp del]

text \<open>\<open>Array.prototype.join\<close>.\<close>

fun join :: "string \<Rightarrow> string list \<Rightarrow> string" where
  "join sep [] = []"
| "join sep [x] = x"
| "join sep (x # y # ys) = x @ sep @ join sep (y # ys)"

text \<open>
  \<open>x.toFixed(2)\<close> as a string: sign, integer part, a dot and two digits.
\<close>

definition toFixed2_string :: "rat \<Rightarrow> string" where
  "toFixed2_string x =
     (let n = nat \<lfloor>\<bar>x\<bar> * 100 + 1 / 2\<rfloor>
      in (if x < 0 then ''-'' else []) @ string_of_nat (n div 100) @ ''.'' @
         [digit_char ((n div 10) mod 10), digit_char (n mod 10)])"

definition formatCurrency :: "rat \<Rightarrow> string" where
  "formatCurrency v = toFixed2_string v"

text \<open>The UTF-8 bytes of the baht sign and of the default label of the special option.\<close>

definition baht :: string where
  "baht = [char_of (0xE0::nat), char_of (0xB8::nat), char_of (0xBF::nat)]"

definition default_special_label :: string where
  "default_special_label = map char_of
     [0xE0, 0xB8, 0x9E, 0xE0, 0xB8, 0xB4, 0xE0, 0xB9, 0x80,
      0xE0, 0xB8, 0xA8, 0xE0, 0xB8, 0xA9 :: nat]"

section \<open>Data model\<close>

text \<open>The objects stored in a selection: \<open>{ id: String(o.id), name, price: Number }\<close>.\<close>

record option_data =
  opt_id :: string
  opt_name :: string
  opt_price :: rat

text \<open>
  A selection is \<open>{type: "single", groupName, option}\<close> or
  \<open>{type: "multiple", groupName, options}\<close>, where \<open>options\<close> is a Map from the
  option id string to the option, kept here in insertion order.
\<close>

datatype selection =
    Single string "option_data option"
  | Multiple string "(string \<times> option_data) list"

text \<open>\<open>modalState.selections\<close>: a Map from the numeric group id, in insertion order.\<close>

type_synonym selections = "(nat \<times> selection) list"

text \<open>The catalog, as \<open>getMenuConfig\<close> returns it. A missing price is \<open>None\<close>.\<close>

record menu_option =
  mo_id :: nat
  mo_name :: string
  mo_price :: "rat option"

record option_group =
  group_id :: nat
  group_name :: string
  selection_type :: string
  is_required :: bool
  group_options :: "menu_option list"

record special_config =
  sc_label :: string
  price_delta :: "rat option"

record menu_config =
  cfg_groups :: "option_group list"
  cfg_special :: "special_config option"

record special_info =
  si_label :: string
  si_price :: rat

record modal_state =
  ms_menuItemId :: nat
  ms_name :: string
  basePrice :: rat
  ms_quantity :: int
  ms_groups :: "option_group list"
  ms_selections :: selections
  currentUnitPrice :: "rat option"
  specialInfo :: "special_info option"
  specialSelected :: bool

record order_item =
  key :: string
  menuItemId :: nat
  name :: string
  unitPrice :: rat
  quantity :: int
  item_note :: "string option"
  item_selections :: "selections option"

text \<open>
  \<open>orderState\<close> is a Map from the item key to the item. \<open>Map.get\<close> is \<open>map_of\<close>,
  \<open>Map.set\<close> is \<open>AList.update\<close> (in place for a key that is present, at the end
  for a new one) and \<open>Map.delete\<close> is \<open>AList.delete\<close>.
\<close>

type_synonym order_state = "(string \<times> order_item) list"

datatype order_status = Idle | Sending | Sent | Failed

record page =
  orderState :: order_state
  modalState :: "modal_state option"
  noteField :: string
  submitDisabled :: bool
  orderStatus :: order_status

section \<open>Keys and prices\<close>

definition buildItemKey :: "nat \<Rightarrow> string \<Rightarrow> string" where
  "buildItemKey mid optionKey = string_of_nat mid @ ''::'' @ optionKey"

text \<open>
  The default \<open>sort()\<close> of an array of strings orders them by code units; equal
  strings are identical, so the result is the sorted list whatever the algorithm.
\<close>

definition selection_part :: "nat \<Rightarrow> selection \<Rightarrow> string" where
  "selection_part groupId sel =
     (case sel of
        Single _ opt \<Rightarrow>
          string_of_nat groupId @ '':'' @
            (case opt of Some ob \<Rightarrow> opt_id ob | None \<Rightarrow> ''none'')
      | Multiple _ opts \<Rightarrow>
          (let ids = sort (map fst opts)
           in string_of_nat groupId @ '':'' @
              (if ids \<noteq> [] then join ''-'' ids else ''none'')))"

definition buildOptionKeyFromSelections :: "selections \<Rightarrow> string" where
  "buildOptionKeyFromSelections sels =
     (if sels = [] then ''base''
      else
        (let parts = map (\<lambda>(groupId, sel). selection_part groupId sel) sels;
             k = join ''|'' (sort parts)
         in if k = [] then ''base'' else k))"

definition add_selection_price :: "rat \<Rightarrow> selection \<Rightarrow> rat" where
  "add_selection_price tot sel =
     (case sel of
        Single _ opt \<Rightarrow> (case opt of Some ob \<Rightarrow> tot + opt_price ob | None \<Rightarrow> tot)
      | Multiple _ opts \<Rightarrow> foldl (\<lambda>t (oid, ob). t + opt_price ob) tot opts)"

definition calculateUnitPrice :: "rat \<Rightarrow> selections \<Rightarrow> rat" where
  "calculateUnitPrice base sels =
     toFixed2 (foldl (\<lambda>tot (groupId, sel). add_selection_price tot sel) base sels)"

definition updateModalSummary :: "modal_state \<Rightarrow> modal_state" where
  "updateModalSummary ms =
     (let unitPrice = calculateUnitPrice (basePrice ms) (ms_selections ms);
          unitPrice' = (case specialInfo ms of
                          Some si \<Rightarrow> if specialSelected ms then unitPrice + si_price si
                                     else unitPrice
                        | None \<Rightarrow> unitPrice)
      in ms\<lparr>currentUnitPrice := Some (toFixed2 unitPrice')\<rparr>)"


section \<open>Notes\<close>

definition formatOptionLabel :: "option_data \<Rightarrow> string" where
  "formatOptionLabel ob =
     (if opt_price ob > 0
      then opt_name ob @ '' (+'' @ formatCurrency (opt_price ob) @ '' '' @ baht @ '')''
      else opt_name ob)"

definition selection_note_parts :: "selection \<Rightarrow> string list" where
  "selection_note_parts sel =
     (case sel of
        Single groupName opt \<Rightarrow>
          (case opt of Some ob \<Rightarrow> [groupName @ '': '' @ formatOptionLabel ob] | None \<Rightarrow> [])
      | Multiple groupName opts \<Rightarrow>
          (if opts \<noteq> []
           then [groupName @ '': '' @ join '', '' (map (\<lambda>(oid, ob). formatOptionLabel ob) opts)]
           else []))"

definition buildSelectionNote :: "selections \<Rightarrow> string option" where
  "buildSelectionNote sels =
     (if sels = [] then None
      else (let parts = concat (map (\<lambda>(groupId, sel). selection_note_parts sel) sels)
            in if parts \<noteq> [] then Some (join '' | '' parts) else None))"

definition buildSpecialNote :: "modal_state \<Rightarrow> string option" where
  "buildSpecialNote st =
     (case specialInfo st of
        None \<Rightarrow> None
      | Some si \<Rightarrow>
          if \<not> specialSelected st then None
          else Some ((if si_label si = [] then default_special_label else si_label si)
                     @ '' (+'' @ formatCurrency (si_price si) @ '' '' @ baht @ '')''))"

definition cloneSelectionState :: "selections \<Rightarrow> selections" where
  "cloneSelectionState sels =
     foldl (\<lambda>clone (groupId, sel).
        AList.update groupId
          (case sel of
             Single groupName opt \<Rightarrow> Single groupName opt
           | Multiple groupName opts \<Rightarrow>
               Multiple groupName
                 (foldl (\<lambda>m (oid, ob). AList.update oid ob m) [] opts))
          clone) [] sels"

section \<open>The cart\<close>

definition upsertOrderItem :: "order_item \<Rightarrow> order_state \<Rightarrow> order_state" where
  "upsertOrderItem item cart =
     (case map_of cart (key item) of
        Some existing \<Rightarrow>
          AList.update (key item) (existing\<lparr>quantity := quantity existing + quantity item\<rparr>) cart
      | None \<Rightarrow> AList.update (key item) item cart)"

definition addSimpleItem :: "nat \<Rightarrow> string \<Rightarrow> rat \<Rightarrow> string option \<Rightarrow> order_state \<Rightarrow> order_state" where
  "addSimpleItem mid nm base nt cart =
     upsertOrderItem
       \<lparr>key = buildItemKey mid ''base'', menuItemId = mid, name = nm, unitPrice = base,
        quantity = 1, item_note = nt, item_selections = None\<rparr> cart"

definition addCustomizedItem :: "modal_state \<Rightarrow> order_state \<Rightarrow> order_state" where
  "addCustomizedItem st cart =
     (let optionKey = buildOptionKeyFromSelections (ms_selections st);
          k = buildItemKey (ms_menuItemId st) optionKey;
          up = (case currentUnitPrice st of
                  Some p \<Rightarrow> p
                | None \<Rightarrow> calculateUnitPrice (basePrice st) (ms_selections st));
          noteParts = (case buildSelectionNote (ms_selections st) of Some s \<Rightarrow> [s] | None \<Rightarrow> [])
                    @ (case buildSpecialNote st of Some s \<Rightarrow> [s] | None \<Rightarrow> []);
          nt = (if noteParts \<noteq> [] then Some (join '' | '' noteParts) else None)
      in upsertOrderItem
           \<lparr>key = k, menuItemId = ms_menuItemId st, name = ms_name st, unitPrice = up,
            quantity = ms_quantity st, item_note = nt,
            item_selections = Some (cloneSelectionState (ms_selections st))\<rparr> cart)"

definition updateQuantity :: "string \<Rightarrow> int \<Rightarrow> order_state \<Rightarrow> order_state" where
  "updateQuantity itemKey delta cart =
     (case map_of cart itemKey of
        None \<Rightarrow> cart
      | Some item \<Rightarrow>
          (let item' = item\<lparr>quantity := quantity item + delta\<rparr>
           in if quantity item' \<le> 0 then AList.delete itemKey cart
              else AList.update itemKey item' cart))"

text \<open>The mutations of the cart that the page can perform, and a run of them.\<close>

datatype cart_action = Upsert order_item | Adjust string int | Clear

fun cart_step :: "order_state \<Rightarrow> cart_action \<Rightarrow> order_state" where
  "cart_step cart (Upsert item) = upsertOrderItem item cart"
| "cart_step cart (Adjust k delta) = updateQuantity k delta cart"
| "cart_step cart Clear = []"

definition cart_run :: "cart_action list \<Rightarrow> order_state" where
  "cart_run acts = foldl cart_step [] acts"

section \<open>The customization session\<close>

text \<open>
  The object literal \<open>{ id: String(o.id), name: o.name, price: Number(o.price || 0) }\<close>
  that every path storing a chosen option builds from the catalog option.
\<close>

definition selected_option :: "menu_option \<Rightarrow> option_data" where
  "selected_option mo =
     \<lparr>opt_id = string_of_nat (mo_id mo), opt_name = mo_name mo,
      opt_price = (case mo_price mo of Some p \<Rightarrow> p | None \<Rightarrow> 0)\<rparr>"

definition initial_selection :: "option_group \<Rightarrow> selection" where
  "initial_selection grp =
     (if selection_type grp = ''single''
      then Single (group_name grp)
             (case group_options grp of
                [] \<Rightarrow> None
              | defaultOption # _ \<Rightarrow>
                  if is_required grp then Some (selected_option defaultOption) else None)
      else Multiple (group_name grp) [])"

definition initializeSelections :: "option_group list \<Rightarrow> selections" where
  "initializeSelections grps =
     foldl (\<lambda>sels grp. AList.update (group_id grp) (initial_selection grp) sels) [] grps"

text \<open>
  The part of \<open>renderGroups\<close> that touches the selections, for one group. \<open>None\<close> is
  the TypeError of reading a property of a selection that is missing or of the other
  kind. A single-type group whose stored selection is of kind "multiple" gets a stray
  \<open>option\<close> property that no function reads (all dispatch on \<open>type\<close>), so the
  selections are returned as they are.
\<close>

definition renderGroup :: "option_group \<Rightarrow> selections \<Rightarrow> selections option" where
  "renderGroup grp sels =
     (let selection = map_of sels (group_id grp)
      in if selection_type grp = ''single''
         then (if \<not> is_required grp \<and> selection = None then None
               else (case group_options grp of
                       [] \<Rightarrow> Some sels
                     | opt0 # _ \<Rightarrow>
                         (case selection of
                            None \<Rightarrow> None
                          | Some (Single gn (Some ob)) \<Rightarrow> Some sels
                          | Some (Single gn None) \<Rightarrow>
                              if is_required grp
                              then Some (AList.update (group_id grp)
                                           (Single gn (Some (selected_option opt0))) sels)
                              else Some sels
                          | Some (Multiple gn opts) \<Rightarrow> Some sels)))
         else (case group_options grp of
                 [] \<Rightarrow> Some sels
               | _ # _ \<Rightarrow>
                   (case selection of
                      Some (Multiple gn opts) \<Rightarrow> Some sels
                    | _ \<Rightarrow> None)))"

fun renderGroups :: "option_group list \<Rightarrow> selections \<Rightarrow> selections option" where
  "renderGroups [] sels = Some sels"
| "renderGroups (grp # rest) sels =
     (case renderGroup grp sels of
        None \<Rightarrow> None
      | Some sels' \<Rightarrow> renderGroups rest sels')"

text \<open>\<open>new Map(groups.map((group) => [group.id, group]))\<close>: the last group of an id wins.\<close>

definition groupIndex :: "modal_state \<Rightarrow> nat \<Rightarrow> option_group option" where
  "groupIndex ms = map_of (rev (map (\<lambda>grp. (group_id grp, grp)) (ms_groups ms)))"

definition getOptionData :: "modal_state \<Rightarrow> nat \<Rightarrow> string \<Rightarrow> menu_option option" where
  "getOptionData ms groupId optionId =
     (case groupIndex ms groupId of
        None \<Rightarrow> None
      | Some grp \<Rightarrow> find (\<lambda>mo. string_of_nat (mo_id mo) = optionId) (group_options grp))"

definition renderOrder :: "page \<Rightarrow> page" where
  "renderOrder p = p\<lparr>submitDisabled := (orderState p = [])\<rparr>"

text \<open>
  \<open>openCustomization\<close> with the configuration that \<open>getMenuConfig\<close> returned.
  \<open>None\<close> is the uncaught TypeError of \<open>renderGroups\<close>: the modal is never shown.
\<close>

definition openCustomization ::
  "nat \<Rightarrow> string \<Rightarrow> rat \<Rightarrow> menu_config \<Rightarrow> string \<Rightarrow> page \<Rightarrow> page option" where
  "openCustomization mid nm base config description p =
     (if cfg_special config = None \<and> cfg_groups config = []
      then Some (renderOrder (p\<lparr>orderState :=
              addSimpleItem mid nm base (if description = [] then None else Some description)
                (orderState p)\<rparr>))
      else
        (let ms = \<lparr>ms_menuItemId = mid, ms_name = nm, basePrice = base, ms_quantity = 1,
                   ms_groups = cfg_groups config, ms_selections = [],
                   currentUnitPrice = Some base,
                   specialInfo =
                     (case cfg_special config of
                        None \<Rightarrow> None
                      | Some sc \<Rightarrow>
                          Some \<lparr>si_label = (if sc_label sc = [] then default_special_label
                                             else sc_label sc),
                                si_price = (case price_delta sc of Some d \<Rightarrow> d | None \<Rightarrow> 0)\<rparr>),
                   specialSelected = False\<rparr>;
             ms1 = ms\<lparr>ms_selections := initializeSelections (cfg_groups config)\<rparr>
         in (case renderGroups (cfg_groups config) (ms_selections ms1) of
               None \<Rightarrow> None
             | Some sels \<Rightarrow>
                 Some (p\<lparr>modalState := Some (updateModalSummary (ms1\<lparr>ms_selections := sels\<rparr>))\<rparr>))))"

definition closeCustomization :: "page \<Rightarrow> page" where
  "closeCustomization p = p\<lparr>modalState := None\<rparr>"

text \<open>
  The change handler of the option inputs: \<open>optionId\<close> is the input's
  \<open>data-option-id\<close> (empty for the "no choice" radio), \<open>checked\<close> its state.
\<close>

definition onOptionChange :: "nat \<Rightarrow> string \<Rightarrow> bool \<Rightarrow> modal_state \<Rightarrow> modal_state" where
  "onOptionChange groupId optionId checked ms =
     (case map_of (ms_selections ms) groupId of
        None \<Rightarrow> ms
      | Some sel \<Rightarrow>
          (let store = (\<lambda>s. ms\<lparr>ms_selections := AList.update groupId s (ms_selections ms)\<rparr>)
           in updateModalSummary
                (case sel of
                   Single gn opt \<Rightarrow>
                     if optionId = [] then store (Single gn None)
                     else (case getOptionData ms groupId optionId of
                             Some od \<Rightarrow> store (Single gn (Some (selected_option od)))
                           | None \<Rightarrow> ms)
                 | Multiple gn opts \<Rightarrow>
                     if checked
                     then (case getOptionData ms groupId optionId of
                             Some od \<Rightarrow>
                               store (Multiple gn
                                 (AList.update (string_of_nat (mo_id od)) (selected_option od) opts))
                           | None \<Rightarrow> ms)
                     else store (Multiple gn (AList.delete optionId opts)))))"

definition onSpecialToggle :: "bool \<Rightarrow> modal_state \<Rightarrow> modal_state" where
  "onSpecialToggle checked ms =
     (case specialInfo ms of
        None \<Rightarrow> ms
      | Some si \<Rightarrow> updateModalSummary (ms\<lparr>specialSelected := checked\<rparr>))"

section \<open>Validation and confirmation\<close>

text \<open>
  The three messages of \<open>validateSelections\<close>: no modal state; "please choose an
  option for NAME"; "please choose at least one entry in NAME". The Thai wording is
  fixed, so an error is identified by its kind and the group name it carries.
\<close>

datatype validation_error = NoOptionData | ChooseOption string | ChooseAtLeastOne string

fun validate_entries ::
  "(nat \<Rightarrow> option_group option) \<Rightarrow> selections \<Rightarrow> validation_error option" where
  "validate_entries gi [] = None"
| "validate_entries gi ((groupId, sel) # rest) =
     (case gi groupId of
        None \<Rightarrow> validate_entries gi rest
      | Some grp \<Rightarrow>
          if \<not> is_required grp then validate_entries gi rest
          else (case sel of
                  Single gn None \<Rightarrow> Some (ChooseOption (group_name grp))
                | Single gn (Some ob) \<Rightarrow> validate_entries gi rest
                | Multiple gn opts \<Rightarrow>
                    if opts = [] then Some (ChooseAtLeastOne (group_name grp))
                    else validate_entries gi rest))"

definition validateSelections :: "modal_state option \<Rightarrow> validation_error option" where
  "validateSelections m =
     (case m of
        None \<Rightarrow> Some NoOptionData
      | Some ms \<Rightarrow> validate_entries (groupIndex ms) (ms_selections ms))"

text \<open>The click handler of the add button; the first component is the alert shown.\<close>

definition onAddClick :: "page \<Rightarrow> validation_error option \<times> page" where
  "onAddClick p =
     (case modalState p of
        None \<Rightarrow> (None, p)
      | Some ms \<Rightarrow>
          (case validateSelections (modalState p) of
             Some validationError \<Rightarrow> (Some validationError, p)
           | None \<Rightarrow>
               (None, closeCustomization
                        (renderOrder (p\<lparr>orderState := addCustomizedItem ms (orderState p)\<rparr>)))))"

section \<open>Submission\<close>



text \<open>
  What the request can come back with: \<open>fetch\<close> rejects, the response is not ok, its
  body is not JSON, or it is a success. \<open>submitOrder\<close> runs up to the \<open>await\<close> of
  the request (\<open>submitOrder_begin\<close>) and resumes with the outcome
  (\<open>submitOrder_finish\<close>). The request carries the items and the note as they are
  when it is sent.
\<close>

datatype fetch_outcome = NetworkFailure | ResponseNotOk | BodyNotJson | ResponseOk






section \<open>Notions in which the properties are stated\<close>

text \<open>
  The Map invariant of a selection state: group ids are pairwise distinct, and so are
  the option ids of every multiple-type selection.
\<close>

definition keys_unique :: "selections \<Rightarrow> bool" where
  "keys_unique sels =
     (distinct (map fst sels) \<and>
      list_all (\<lambda>(groupId, sel).
         case sel of Single gn opt \<Rightarrow> True | Multiple gn opts \<Rightarrow> distinct (map fst opts)) sels)"

text \<open>
  Two selections of one group hold the same choice: the same chosen option id (or none
  on both sides) for a single-type group, the same set of option ids for a
  multiple-type group. Group names and the order of insertion do not matter.
\<close>

fun same_choice :: "selection \<Rightarrow> selection \<Rightarrow> bool" where
  "same_choice (Single gn opt) (Single gn' opt') = (map_option opt_id opt = map_option opt_id opt')"
| "same_choice (Multiple gn opts) (Multiple gn' opts') = (set (map fst opts) = set (map fst opts'))"
| "same_choice (Single gn opt) (Multiple gn' opts') = False"
| "same_choice (Multiple gn opts) (Single gn' opt') = False"

definition set_equal_per_group :: "selections \<Rightarrow> selections \<Rightarrow> bool" where
  "set_equal_per_group s1 s2 =
     (set (map fst s1) = set (map fst s2) \<and>
      list_all (\<lambda>(groupId, sel).
         case map_of s2 groupId of None \<Rightarrow> False | Some sel' \<Rightarrow> same_choice sel sel') s1)"

text \<open>
  A required group is violated by its selection: a single-type selection without an
  option, or a multiple-type selection with no option. The error names the first one.
\<close>

definition spec_violated :: "(nat \<Rightarrow> option_group option) \<Rightarrow> nat \<times> selection \<Rightarrow> bool" where
  "spec_violated gi e =
     (case gi (fst e) of
        None \<Rightarrow> False
      | Some grp \<Rightarrow>
          is_required grp \<and>
          (case snd e of Single gn opt \<Rightarrow> opt = None | Multiple gn opts \<Rightarrow> opts = []))"

definition spec_first_violation ::
  "(nat \<Rightarrow> option_group option) \<Rightarrow> selections \<Rightarrow> validation_error option" where
  "spec_first_violation gi sels =
     (case find (spec_violated gi) sels of
        None \<Rightarrow> None
      | Some (groupId, sel) \<Rightarrow>
          (case gi groupId of
             None \<Rightarrow> None
           | Some grp \<Rightarrow>
               Some (case sel of
                       Single gn opt \<Rightarrow> ChooseOption (group_name grp)
                     | Multiple gn opts \<Rightarrow> ChooseAtLeastOne (group_name grp))))"

text \<open>
  The price of the options chosen in one group (0 for a single-type group without a
  choice), their sum over the groups, the special price delta when the toggle is on,
  and amounts with at most two decimals.
\<close>

fun selection_price :: "selection \<Rightarrow> rat" where
  "selection_price (Single gn None) = 0"
| "selection_price (Single gn (Some ob)) = opt_price ob"
| "selection_price (Multiple gn opts) = sum_list (map (\<lambda>(oid, ob). opt_price ob) opts)"

definition selections_total :: "selections \<Rightarrow> rat" where
  "selections_total sels = sum_list (map (\<lambda>(groupId, sel). selection_price sel) sels)"





text \<open>
  An option id that cannot be mistaken for part of the key syntax: it holds neither the
  hyphen that joins the ids of a group nor the bar that joins the groups, and it is not
  the word that stands for an empty choice.
\<close>

definition plain_id :: "string \<Rightarrow> bool" where
  "plain_id s = (CHR ''-'' \<notin> set s \<and> CHR ''|'' \<notin> set s \<and> s \<noteq> ''none'')"

fun plain_choice :: "selection \<Rightarrow> bool" where
  "plain_choice (Single gn opt) = (case opt of None \<Rightarrow> True | Some ob \<Rightarrow> plain_id (opt_id ob))"
| "plain_choice (Multiple gn opts) = list_all (\<lambda>(oid, ob). plain_id oid) opts"

definition plain_option_ids :: "selections \<Rightarrow> bool" where
  "plain_option_ids sels = list_all (\<lambda>(groupId, sel). plain_choice sel) sels"

text \<open>
  The option ids of a catalog whose ids are numbers: \<open>String(id)\<close> is a non-empty
  string of decimal digits, which is a plain id.
\<close>

definition digits :: "string \<Rightarrow> bool" where
  "digits s = (s \<noteq> [] \<and> list_all (\<lambda>c. c \<in> set ''0123456789'') s)"

fun numeric_choice :: "selection \<Rightarrow> bool" where
  "numeric_choice (Single gn opt) = (case opt of None \<Rightarrow> True | Some ob \<Rightarrow> digits (opt_id ob))"
| "numeric_choice (Multiple gn opts) = list_all (\<lambda>(oid, ob). digits oid) opts"

definition numeric_option_ids :: "selections \<Rightarrow> bool" where
  "numeric_option_ids sels = list_all (\<lambda>(groupId, sel). numeric_choice sel) sels"

text \<open>
  Two selections of one group are of the same kind, as they are for one menu item.
\<close>

fun same_kind :: "selection \<Rightarrow> selection \<Rightarrow> bool" where
  "same_kind (Single gn opt) (Single gn' opt') = True"
| "same_kind (Multiple gn opts) (Multiple gn' opts') = True"
| "same_kind (Single gn opt) (Multiple gn' opts') = False"
| "same_kind (Multiple gn opts) (Single gn' opt') = False"

text \<open>The part of a group's fragment that follows the group id and the colon.\<close>

definition selection_body :: "selection \<Rightarrow> string" where
  "selection_body sel =
     (case sel of
        Single gn opt \<Rightarrow> (case opt of Some ob \<Rightarrow> opt_id ob | None \<Rightarrow> ''none'')
      | Multiple gn opts \<Rightarrow>
          (if sort (map fst opts) \<noteq> [] then join ''-'' (sort (map fst opts)) else ''none''))"

text \<open>
  The invariant of the selections of a session on a catalog whose option ids are
  numbers: unique keys and numeric option ids. \<open>initializeSelections\<close>,
  \<open>renderGroups\<close> and \<open>onOptionChange\<close> keep it (see the lemmas below).
\<close>

definition well_formed :: "selections \<Rightarrow> bool" where
  "well_formed sels = (keys_unique sels \<and> numeric_option_ids sels)"

definition entry_ok :: "selection \<Rightarrow> bool" where
  "entry_ok sel =
     (numeric_choice sel \<and>
      (case sel of Single gn opt \<Rightarrow> True | Multiple gn opts \<Rightarrow> distinct (map fst opts)))"

section \<open>Sample data\<close>

text \<open>Concrete items and configurations on which the properties below are instantiated.\<close>

definition item_a :: order_item where
  "item_a = \<lparr>key = ''1::base'', menuItemId = 1, name = ''tea'', unitPrice = 50, quantity = 1,
     item_note = None, item_selections = None\<rparr>"

definition item_b :: order_item where
  "item_b = \<lparr>key = ''1::base'', menuItemId = 1, name = ''tea'', unitPrice = 50, quantity = 2,
     item_note = None, item_selections = None\<rparr>"

definition sample_single_group :: option_group where
  "sample_single_group =
     \<lparr>group_id = 10, group_name = ''size'', selection_type = ''single'', is_required = True,
      group_options = [\<lparr>mo_id = 100, mo_name = ''large'', mo_price = Some 5\<rparr>]\<rparr>"

definition sample_multiple_group :: option_group where
  "sample_multiple_group =
     \<lparr>group_id = 11, group_name = ''toppings'', selection_type = ''multiple'', is_required = True,
      group_options = [\<lparr>mo_id = 200, mo_name = ''egg'', mo_price = Some 10\<rparr>,
                       \<lparr>mo_id = 7, mo_name = ''cheese'', mo_price = Some 15\<rparr>]\<rparr>"

definition sample_modal :: modal_state where
  "sample_modal =
     \<lparr>ms_menuItemId = 2, ms_name = ''noodles'', basePrice = 40, ms_quantity = 1,
      ms_groups = [sample_single_group, sample_multiple_group],
      ms_selections = initializeSelections [sample_single_group, sample_multiple_group],
      currentUnitPrice = Some 45,
      specialInfo = Some \<lparr>si_label = ''extra'', si_price = 10\<rparr>,
      specialSelected = False\<rparr>"

definition sample_page :: page where
  "sample_page =
     \<lparr>orderState = [(''1::base'', item_a)], modalState = Some sample_modal,
      noteField = ''no ice'', submitDisabled = False, orderStatus = Idle\<rparr>"

definition egg :: option_data where
  "egg = \<lparr>opt_id = ''200'', opt_name = ''egg'', opt_price = 10\<rparr>"

definition cheese :: option_data where
  "cheese = \<lparr>opt_id = ''7'', opt_name = ''cheese'', opt_price = 15\<rparr>"

definition large :: option_data where
  "large = \<lparr>opt_id = ''100'', opt_name = ''large'', opt_price = 5\<rparr>"

definition chosen_one_way :: selections where
  "chosen_one_way =
     [(10, Single ''size'' (Some large)),
      (11, Multiple ''toppings'' [(''200'', egg), (''7'', cheese)])]"

definition chosen_other_way :: selections where
  "chosen_other_way =
     [(11, Multiple ''toppings'' [(''7'', cheese), (''200'', egg)]),
      (10, Single ''size'' (Some large))]"




definition discount :: option_data where
  "discount = \<lparr>opt_id = ''9'', opt_name = ''no rice'', opt_price = - 5\<rparr>"

definition discount_group :: option_group where
  "discount_group =
     \<lparr>group_id = 11, group_name = ''extras'', selection_type = ''multiple'', is_required = False,
      group_options = [\<lparr>mo_id = 9, mo_name = ''no rice'', mo_price = Some (- 5)\<rparr>]\<rparr>"

definition discount_opened :: modal_state where
  "discount_opened =
     \<lparr>ms_menuItemId = 4, ms_name = ''curry'', basePrice = 10, ms_quantity = 1,
      ms_groups = [discount_group], ms_selections = [(11, Multiple ''extras'' [])],
      currentUnitPrice = Some 10, specialInfo = None, specialSelected = False\<rparr>"

definition empty_page :: page where
  "empty_page =
     \<lparr>orderState = [], modalState = None, noteField = [], submitDisabled = True,
      orderStatus = Idle\<rparr>"

definition scenario_config :: menu_config where
  "scenario_config = \<lparr>cfg_groups = [sample_single_group], cfg_special = None\<rparr>"

definition scenario_modal :: modal_state where
  "scenario_modal =
     \<lparr>ms_menuItemId = 2, ms_name = ''noodles'', basePrice = 40, ms_quantity = 1,
      ms_groups = [sample_single_group],
      ms_selections = [(10, Single ''size'' (Some large))],
      currentUnitPrice = Some 45, specialInfo = None, specialSelected = False\<rparr>"

definition chosen_less :: selections where
  "chosen_less =
     [(10, Single ''size'' (Some large)),
      (11, Multiple ''toppings'' [(''200'', egg)])]"

definition hyphen_id_chosen :: selections where
  "hyphen_id_chosen =
     [(11, Multiple ''toppings''
             [(''1-2'', \<lparr>opt_id = ''1-2'', opt_name = ''combo'', opt_price = 20\<rparr>)])]"

definition two_ids_chosen :: selections where
  "two_ids_chosen =
     [(11, Multiple ''toppings''
             [(''1'', \<lparr>opt_id = ''1'', opt_name = ''egg'', opt_price = 10\<rparr>),
              (''2'', \<lparr>opt_id = ''2'', opt_name = ''cheese'', opt_price = 15\<rparr>)])]"

section \<open>Properties of the cart\<close>

lemma update_present_map:
  "distinct (map fst al) \<Longrightarrow> map_of al k = Some v \<Longrightarrow>
   AList.update k (f v) al = map (\<lambda>(k', v'). if k' = k then (k', f v') else (k', v')) al"
proof (induction al)
  case Nil
  then show ?case by simp
next
  case (Cons p al)
  obtain k0 v0 where p: "p = (k0, v0)" by (cases p)
  show ?case
  proof (cases "k0 = k")
    case True
    with Cons.prems p have v: "v0 = v" by simp
    from Cons.prems p True have "k \<notin> fst ` set al" by simp
    then have "map (\<lambda>(k', v'). if k' = k then (k', f v') else (k', v')) al = al"
      by (intro map_idI) force
    with True p v show ?thesis by simp
  next
    case False
    with Cons p show ?thesis by simp
  qed
qed

lemma update_absent_append:
  "map_of al k = None \<Longrightarrow> AList.update k v al = al @ [(k, v)]"
  by (induction al) (auto split: if_splits)

lemma distinct_upsertOrderItem:
  "distinct (map fst cart) \<Longrightarrow> distinct (map fst (upsertOrderItem item cart))"
  by (simp add: upsertOrderItem_def distinct_update split: option.split)

lemma distinct_updateQuantity:
  "distinct (map fst cart) \<Longrightarrow> distinct (map fst (updateQuantity k d cart))"
  by (simp add: updateQuantity_def Let_def distinct_update distinct_delete split: option.split)

lemma distinct_cart_step:
  "distinct (map fst cart) \<Longrightarrow> distinct (map fst (cart_step cart act))"
  by (cases act) (simp_all add: distinct_upsertOrderItem distinct_updateQuantity)

lemma distinct_foldl_cart_step:
  "distinct (map fst cart) \<Longrightarrow> distinct (map fst (foldl cart_step cart acts))"
  by (induction acts arbitrary: cart) (simp_all add: distinct_cart_step)

text \<open>
  C3: \<open>upsertOrderItem\<close> on a cart that already holds the key of the new item adds the
  new quantity to that entry and creates no entry (every other entry, and every other
  field, is as before, in the same order); on a cart without the key it appends the new
  item after the existing entries; upserting two items of one fresh key leaves one entry
  whose quantity is the sum; and keys stay pairwise distinct, from any cart with distinct
  keys and along every run of cart mutations from the empty cart.
\<close>

theorem upsertOrderItem_merges_or_appends:
  "(distinct (map fst cart) \<and> map_of cart (key item) \<noteq> None \<longrightarrow>
      upsertOrderItem item cart =
        map (\<lambda>(k, it). if k = key item then (k, it\<lparr>quantity := quantity it + quantity item\<rparr>)
                        else (k, it)) cart)
   \<and> (map_of cart (key item) = None \<longrightarrow> upsertOrderItem item cart = cart @ [(key item, item)])
   \<and> (map_of cart (key item) = None \<and> key item' = key item \<longrightarrow>
        upsertOrderItem item' (upsertOrderItem item cart) =
          cart @ [(key item, item\<lparr>quantity := quantity item + quantity item'\<rparr>)])
   \<and> (distinct (map fst cart) \<longrightarrow> distinct (map fst (upsertOrderItem item cart)))
   \<and> distinct (map fst (cart_run acts))"
proof (intro conjI impI)
  assume "distinct (map fst cart) \<and> map_of cart (key item) \<noteq> None"
  then obtain e where d: "distinct (map fst cart)" and e: "map_of cart (key item) = Some e"
    by auto
  from update_present_map [OF d e, of "\<lambda>it. it\<lparr>quantity := quantity it + quantity item\<rparr>"] e
  show "upsertOrderItem item cart =
        map (\<lambda>(k, it). if k = key item then (k, it\<lparr>quantity := quantity it + quantity item\<rparr>)
                        else (k, it)) cart"
    by (simp add: upsertOrderItem_def)
next
  assume "map_of cart (key item) = None"
  then show "upsertOrderItem item cart = cart @ [(key item, item)]"
    by (simp add: upsertOrderItem_def update_absent_append)
next
  assume a: "map_of cart (key item) = None \<and> key item' = key item"
  then have 1: "upsertOrderItem item cart = cart @ [(key item, item)]"
    by (simp add: upsertOrderItem_def update_absent_append)
  from a have 2: "map_of (cart @ [(key item, item)]) (key item') = Some item"
    by (simp add: map_add_def)
  have 3: "AList.update (key item) v (cart @ [(key item, w)]) = cart @ [(key item, v)]" for v w
    using a by (induction cart) (auto split: if_splits)
  show "upsertOrderItem item' (upsertOrderItem item cart) =
          cart @ [(key item, item\<lparr>quantity := quantity item + quantity item'\<rparr>)]"
    unfolding 1 using a 2 3 by (simp add: upsertOrderItem_def)
next
  assume "distinct (map fst cart)"
  then show "distinct (map fst (upsertOrderItem item cart))"
    by (rule distinct_upsertOrderItem)
next
  show "distinct (map fst (cart_run acts))"
    unfolding cart_run_def by (rule distinct_foldl_cart_step) simp
qed

theorem upsertOrderItem_merges_or_appends_witness:
  "upsertOrderItem item_a [] = [(''1::base'', item_a)]
   \<and> upsertOrderItem item_b [(''1::base'', item_a)] = [(''1::base'', item_a\<lparr>quantity := 3\<rparr>)]
   \<and> upsertOrderItem item_b (upsertOrderItem item_a []) = [(''1::base'', item_a\<lparr>quantity := 3\<rparr>)]
   \<and> distinct (map fst (upsertOrderItem item_b [(''1::base'', item_a)]))"
proof -
  have k: "key item_a = ''1::base''" "key item_b = ''1::base''"
    "quantity item_a = 1" "quantity item_b = 2"
    by (simp_all add: item_a_def item_b_def)
  have absent: "map_of ([] :: order_state) (key item_a) = None" by simp
  have present: "distinct (map fst [(''1::base'', item_a)])
     \<and> map_of [(''1::base'', item_a)] (key item_b) \<noteq> None"
    by (simp add: k)
  have same: "key item_b = key item_a" by (simp add: k)
  note fresh = upsertOrderItem_merges_or_appends [of "[]" item_a item_b "[]"]
  from fresh absent have "upsertOrderItem item_a [] = [] @ [(key item_a, item_a)]"
    by blast
  then have 1: "upsertOrderItem item_a [] = [(''1::base'', item_a)]"
    by (simp add: k)
  from fresh absent same
  have "upsertOrderItem item_b (upsertOrderItem item_a []) =
       [] @ [(key item_a, item_a\<lparr>quantity := quantity item_a + quantity item_b\<rparr>)]"
    by blast
  then have 3: "upsertOrderItem item_b (upsertOrderItem item_a []) =
       [(''1::base'', item_a\<lparr>quantity := 3\<rparr>)]"
    by (simp add: k)
  note merged = upsertOrderItem_merges_or_appends [of "[(''1::base'', item_a)]" item_b item_b "[]"]
  from merged present
  have "upsertOrderItem item_b [(''1::base'', item_a)] =
     map (\<lambda>(k, it). if k = key item_b then (k, it\<lparr>quantity := quantity it + quantity item_b\<rparr>)
                     else (k, it)) [(''1::base'', item_a)]"
    by blast
  then have 2: "upsertOrderItem item_b [(''1::base'', item_a)] =
      [(''1::base'', item_a\<lparr>quantity := 3\<rparr>)]"
    by (simp add: k)
  from merged present
  have 4: "distinct (map fst (upsertOrderItem item_b [(''1::base'', item_a)]))"
    by blast
  from 1 2 3 4 show ?thesis by blast
qed


text \<open>
  C7: \<open>updateQuantity\<close> leaves the cart as it is when the key is absent; otherwise it
  adds \<open>delta\<close> to the quantity of that entry, and removes the entry when the result
  is at most 0 (so also when it is exactly 0), the other entries staying in order.
\<close>

theorem updateQuantity_spec:
  "(map_of cart itemKey = None \<longrightarrow> updateQuantity itemKey delta cart = cart)
   \<and> (\<forall>item. distinct (map fst cart) \<and> map_of cart itemKey = Some item \<longrightarrow>
        (if quantity item + delta \<le> 0
         then updateQuantity itemKey delta cart = filter (\<lambda>(k, it). k \<noteq> itemKey) cart
         else updateQuantity itemKey delta cart =
                map (\<lambda>(k, it). if k = itemKey then (k, it\<lparr>quantity := quantity it + delta\<rparr>)
                                else (k, it)) cart))"
proof (intro conjI impI allI)
  assume "map_of cart itemKey = None"
  then show "updateQuantity itemKey delta cart = cart"
    by (simp add: updateQuantity_def)
next
  fix item
  assume a: "distinct (map fst cart) \<and> map_of cart itemKey = Some item"
  have del: "AList.delete itemKey cart = filter (\<lambda>(k, it). k \<noteq> itemKey) cart"
    by (induction cart) auto
  from a update_present_map [of cart itemKey item "\<lambda>it. it\<lparr>quantity := quantity it + delta\<rparr>"]
  have upd: "AList.update itemKey (item\<lparr>quantity := quantity item + delta\<rparr>) cart =
      map (\<lambda>(k, it). if k = itemKey then (k, it\<lparr>quantity := quantity it + delta\<rparr>)
                                else (k, it)) cart"
    by simp
  from a show "if quantity item + delta \<le> 0
         then updateQuantity itemKey delta cart = filter (\<lambda>(k, it). k \<noteq> itemKey) cart
         else updateQuantity itemKey delta cart =
                map (\<lambda>(k, it). if k = itemKey then (k, it\<lparr>quantity := quantity it + delta\<rparr>)
                                else (k, it)) cart"
    by (simp add: updateQuantity_def Let_def del upd)
qed


theorem updateQuantity_spec_witness:
  "updateQuantity ''9::base'' (- 1) [(''1::base'', item_a)] = [(''1::base'', item_a)]
   \<and> updateQuantity ''1::base'' (- 1) [(''1::base'', item_a)] = []
   \<and> updateQuantity ''1::base'' 1 [(''1::base'', item_a)] = [(''1::base'', item_a\<lparr>quantity := 2\<rparr>)]"
proof -
  have q: "quantity item_a = 1" by (simp add: item_a_def)
  have absent: "map_of [(''1::base'', item_a)] ''9::base'' = None" by simp
  have present: "distinct (map fst [(''1::base'', item_a)])
     \<and> map_of [(''1::base'', item_a)] ''1::base'' = Some item_a" by simp
  from updateQuantity_spec [of "[(''1::base'', item_a)]" "''9::base''" "- 1"] absent
  have 1: "updateQuantity ''9::base'' (- 1) [(''1::base'', item_a)] = [(''1::base'', item_a)]"
    by blast
  from updateQuantity_spec [of "[(''1::base'', item_a)]" "''1::base''" "- 1"] present
  have 2: "updateQuantity ''1::base'' (- 1) [(''1::base'', item_a)] = []"
    by (auto simp: q split: if_splits)
  from updateQuantity_spec [of "[(''1::base'', item_a)]" "''1::base''" "1"] present
  have 3: "updateQuantity ''1::base'' 1 [(''1::base'', item_a)] = [(''1::base'', item_a\<lparr>quantity := 2\<rparr>)]"
    by (auto simp: q split: if_splits)
  from 1 2 3 show ?thesis by blast
qed

section \<open>Properties of the decimal strings\<close>

lemma digit_char_code: "d < 10 \<Longrightarrow> of_char (digit_char d) = 48 + d"
  by (simp add: digit_char_def)

lemma string_of_nat_nonempty: "string_of_nat n \<noteq> []"
  by (subst string_of_nat.simps) simp

lemma digit_char_table:
  "digit_char 0 = CHR ''0''" "digit_char 1 = CHR ''1''" "digit_char (Suc 0) = CHR ''1''" "digit_char 2 = CHR ''2''"
  "digit_char 3 = CHR ''3''" "digit_char 4 = CHR ''4''" "digit_char 5 = CHR ''5''"
  "digit_char 6 = CHR ''6''" "digit_char 7 = CHR ''7''" "digit_char 8 = CHR ''8''"
  "digit_char 9 = CHR ''9''"
  by code_simp+

lemma digit_char_is_digit: "d < 10 \<Longrightarrow> digit_char d \<in> set ''0123456789''"
proof -
  assume "d < 10"
  then have "d \<in> set [0..<10]" by simp
  also have "[0..<10] = [0, 1, 2, 3, 4, 5, 6, 7, 8, 9 :: nat]" by code_simp
  finally have "d = 0 \<or> d = 1 \<or> d = 2 \<or> d = 3 \<or> d = 4 \<or> d = 5 \<or> d = 6 \<or> d = 7
      \<or> d = 8 \<or> d = 9"
    by simp
  then show ?thesis
    by (elim disjE) (simp_all add: digit_char_table)
qed

lemma digit_char_inj:
  assumes "a < 10" "b < 10" "digit_char a = digit_char b"
  shows "a = b"
proof -
  have "48 + a = (of_char (digit_char a) :: nat)"
    using assms(1) by (simp only: digit_char_code)
  also have "\<dots> = of_char (digit_char b)"
    by (simp only: assms(3))
  also have "\<dots> = 48 + b"
    using assms(2) by (simp only: digit_char_code)
  finally show ?thesis by simp
qed

lemma digits_string_of_nat: "digits (string_of_nat n)"
proof (induction n rule: string_of_nat.induct)
  case (1 n)
  show ?case
  proof (cases "n < 10")
    case True
    then show ?thesis
      using digit_char_is_digit [of n]
      by (subst string_of_nat.simps) (simp add: digits_def)
  next
    case False
    with 1 have "digits (string_of_nat (n div 10))" by simp
    moreover have "digit_char (n mod 10) \<in> set ''0123456789''"
      by (rule digit_char_is_digit) simp
    ultimately show ?thesis
      using False by (subst string_of_nat.simps) (simp add: digits_def)
  qed
qed

lemma string_of_nat_inj: "string_of_nat n = string_of_nat m \<Longrightarrow> n = m"
proof (induction n arbitrary: m rule: string_of_nat.induct)
  case (1 n)
  show ?case
  proof (cases "n < 10")
    case n: True
    show ?thesis
    proof (cases "m < 10")
      case True
      with n "1.prems" show ?thesis
        by (simp add: string_of_nat.simps [of n] string_of_nat.simps [of m] digit_char_inj)
    next
      case False
      with n "1.prems" string_of_nat_nonempty [of "m div 10"] show ?thesis
        by (simp add: string_of_nat.simps [of n] string_of_nat.simps [of m] Cons_eq_append_conv)
    qed
  next
    case n: False
    show ?thesis
    proof (cases "m < 10")
      case True
      with n "1.prems" string_of_nat_nonempty [of "n div 10"] show ?thesis
        by (simp add: string_of_nat.simps [of n] string_of_nat.simps [of m] append_eq_Cons_conv)
    next
      case False
      with n "1.prems"
      have e: "string_of_nat (n div 10) = string_of_nat (m div 10)"
        and d: "digit_char (n mod 10) = digit_char (m mod 10)"
        by (simp_all add: string_of_nat.simps [of n] string_of_nat.simps [of m])
      from "1.IH" [OF n e] have "n div 10 = m div 10" .
      moreover from d have "n mod 10 = m mod 10" by (intro digit_char_inj) simp_all
      ultimately show ?thesis by (metis div_mult_mod_eq)
    qed
  qed
qed

lemma join_Cons: "xs \<noteq> [] \<Longrightarrow> join sep (x # xs) = x @ sep @ join sep xs"
  by (cases xs) simp_all

lemma join_nonempty: "xs \<noteq> [] \<Longrightarrow> hd xs \<noteq> [] \<Longrightarrow> join sep xs \<noteq> []"
  by (cases xs; cases "tl xs") auto

lemma hd_join: "xs \<noteq> [] \<Longrightarrow> hd xs \<noteq> [] \<Longrightarrow> hd (join sep xs) = hd (hd xs)"
  by (cases xs; cases "tl xs") auto

lemma set_join: "set (join sep xs) \<subseteq> set sep \<union> \<Union> (set ` set xs)"
  by (induction sep xs rule: join.induct) auto

lemma split_at_separator:
  "c \<notin> set x \<Longrightarrow> c \<notin> set y \<Longrightarrow> x @ c # r = y @ c # s \<Longrightarrow> x = y \<and> r = s"
proof (induction x arbitrary: y)
  case Nil
  then show ?case by (cases y) auto
next
  case (Cons a x)
  then show ?case by (cases y) auto
qed

lemma join_inj:
  assumes "\<forall>x \<in> set xs. c \<notin> set x" "\<forall>y \<in> set ys. c \<notin> set y"
    and "xs \<noteq> []" "ys \<noteq> []" "join [c] xs = join [c] ys"
  shows "xs = ys"
  using assms
proof (induction xs arbitrary: ys)
  case Nil
  then show ?case by simp
next
  case (Cons x xs)
  from Cons.prems obtain y ys' where ys: "ys = y # ys'" by (cases ys) auto
  from Cons.prems ys have cx: "c \<notin> set x" and cy: "c \<notin> set y" by auto
  show ?case
  proof (cases "xs = []")
    case xs: True
    show ?thesis
    proof (cases "ys' = []")
      case True
      with xs ys Cons.prems show ?thesis by simp
    next
      case False
      with xs ys Cons.prems have "x = y @ c # join [c] ys'" by (simp add: join_Cons)
      with cx show ?thesis by auto
    qed
  next
    case xs: False
    show ?thesis
    proof (cases "ys' = []")
      case True
      with xs ys Cons.prems have "y = x @ c # join [c] xs" by (simp add: join_Cons)
      with cy show ?thesis by auto
    next
      case False
      with xs ys Cons.prems have "x @ c # join [c] xs = y @ c # join [c] ys'"
        by (simp add: join_Cons)
      with cx cy have xy: "x = y \<and> join [c] xs = join [c] ys'"
        by (intro split_at_separator)
      then have "x = y" and j: "join [c] xs = join [c] ys'" by simp_all
      moreover from Cons.prems ys xs False j have "xs = ys'"
        by (intro Cons.IH) auto
      ultimately show ?thesis using ys by simp
    qed
  qed
qed


lemma digits_chars: "digits s \<Longrightarrow> c \<in> set s \<Longrightarrow> c \<in> set ''0123456789''"
  by (simp add: digits_def list_all_iff)

lemma digits_nonempty: "digits s \<Longrightarrow> s \<noteq> []"
  by (simp add: digits_def)

lemma digits_no_separator:
  assumes "digits s"
  shows "CHR ''-'' \<notin> set s" "CHR ''|'' \<notin> set s" "CHR '':'' \<notin> set s" "hd s \<noteq> CHR ''n''"
proof -
  show "CHR ''-'' \<notin> set s" using digits_chars [OF assms, of "CHR ''-''"] by auto
  show "CHR ''|'' \<notin> set s" using digits_chars [OF assms, of "CHR ''|''"] by auto
  show "CHR '':'' \<notin> set s" using digits_chars [OF assms, of "CHR '':''"] by auto
  from assms have "hd s \<in> set s" by (simp add: digits_def)
  with digits_chars [OF assms, of "hd s"] show "hd s \<noteq> CHR ''n''" by auto
qed

section \<open>Properties of the selection key\<close>

lemma sort_eq_of_distinct_set_eq:
  fixes xs ys :: "'a::linorder list"
  assumes "distinct xs" "distinct ys" "set xs = set ys"
  shows "sort xs = sort ys"
proof -
  from assms have "mset xs = mset ys" by (simp add: set_eq_iff_mset_eq_distinct)
  then have "mset (sort ys) = mset xs" by simp
  then show ?thesis by (rule properties_for_sort) simp
qed

lemma selection_part_same_choice:
  assumes "same_choice a b"
    and "\<And>gn opts. a = Multiple gn opts \<Longrightarrow> distinct (map fst opts)"
    and "\<And>gn opts. b = Multiple gn opts \<Longrightarrow> distinct (map fst opts)"
  shows "selection_part g a = selection_part g b"
proof (cases a)
  case (Single gn opt)
  with assms(1) obtain gn' opt' where b: "b = Single gn' opt'" by (cases b) auto
  with Single assms(1) show ?thesis
    by (cases opt; cases opt') (auto simp: selection_part_def)
next
  case (Multiple gn opts)
  with assms(1) obtain gn' opts' where b: "b = Multiple gn' opts'" by (cases b) auto
  from Multiple b assms have "sort (map fst opts) = sort (map fst opts')"
    by (intro sort_eq_of_distinct_set_eq) auto
  with Multiple b show ?thesis by (simp add: selection_part_def)
qed

lemma parts_by_lookup:
  assumes "distinct (map fst sels)"
  shows "map (\<lambda>(g, sel). f g sel) sels = map (\<lambda>g. f g (the (map_of sels g))) (map fst sels)"
proof -
  have "map (\<lambda>(g, sel). f g sel) sels = map (\<lambda>p. f (fst p) (the (map_of sels (fst p)))) sels"
  proof (rule map_cong [OF refl])
    fix p assume "p \<in> set sels"
    with assms have "map_of sels (fst p) = Some (snd p)" by (cases p) simp
    then show "(case p of (g, sel) \<Rightarrow> f g sel) = f (fst p) (the (map_of sels (fst p)))"
      by (cases p) simp
  qed
  then show ?thesis by (simp add: comp_def)
qed

lemma keys_unique_lookup:
  "keys_unique sels \<Longrightarrow> map_of sels g = Some (Multiple gn opts) \<Longrightarrow> distinct (map fst opts)"
  by (auto simp: keys_unique_def list_all_iff dest!: map_of_SomeD)

text \<open>
  C1: \<open>buildOptionKeyFromSelections\<close> returns the literal \<open>base\<close> for the empty
  selection state, and the same key for two selection states that hold the same groups
  and, for each group, the same choice (the same chosen option of a single-type group,
  the same set of chosen options of a multiple-type group), whatever the order in which
  groups and options were inserted.
\<close>

theorem buildOptionKey_order_independent:
  "buildOptionKeyFromSelections [] = ''base''
   \<and> (keys_unique s1 \<and> keys_unique s2 \<and> set_equal_per_group s1 s2 \<longrightarrow>
        buildOptionKeyFromSelections s1 = buildOptionKeyFromSelections s2)"
proof (intro conjI impI)
  show "buildOptionKeyFromSelections [] = ''base''"
    by (simp add: buildOptionKeyFromSelections_def)
next
  assume a: "keys_unique s1 \<and> keys_unique s2 \<and> set_equal_per_group s1 s2"
  then have d1: "distinct (map fst s1)" and d2: "distinct (map fst s2)"
    and ks: "set (map fst s1) = set (map fst s2)"
    by (simp_all add: keys_unique_def set_equal_per_group_def)
  let ?F1 = "\<lambda>g. selection_part g (the (map_of s1 g))"
  let ?F2 = "\<lambda>g. selection_part g (the (map_of s2 g))"
  have eq: "?F1 g = ?F2 g" if g: "g \<in> set (map fst s1)" for g
  proof -
    from g d1 obtain x where x: "map_of s1 g = Some x" and xin: "(g, x) \<in> set s1"
      by (auto simp: map_of_eq_Some_iff)
    from a xin obtain y where y: "map_of s2 g = Some y" and sc: "same_choice x y"
      by (auto simp: set_equal_per_group_def list_all_iff split: option.splits)
    from a have k1: "keys_unique s1" and k2: "keys_unique s2" by simp_all
    have "selection_part g x = selection_part g y"
    proof (rule selection_part_same_choice [OF sc])
      fix gn opts assume "x = Multiple gn opts"
      with x keys_unique_lookup [OF k1] show "distinct (map fst opts)" by blast
    next
      fix gn opts assume "y = Multiple gn opts"
      with y keys_unique_lookup [OF k2] show "distinct (map fst opts)" by blast
    qed
    with x y show ?thesis by simp
  qed
  have "mset (map fst s1) = mset (map fst s2)"
    by (rule iffD1 [OF set_eq_iff_mset_eq_distinct [OF d1 d2] ks])
  then have "mset (map ?F1 (map fst s1)) = mset (map ?F2 (map fst s2))"
    using eq by (metis (no_types, lifting) map_cong mset_map)
  then have "mset (map (\<lambda>(g, sel). selection_part g sel) s1)
      = mset (map (\<lambda>(g, sel). selection_part g sel) s2)"
    by (simp only: parts_by_lookup [OF d1] parts_by_lookup [OF d2])
  then have "sort (map (\<lambda>(g, sel). selection_part g sel) s1)
      = sort (map (\<lambda>(g, sel). selection_part g sel) s2)"
    by (metis mset_sort properties_for_sort sorted_sort)
  moreover from ks have "s1 = [] \<longleftrightarrow> s2 = []" by (cases s1; cases s2) auto
  ultimately show "buildOptionKeyFromSelections s1 = buildOptionKeyFromSelections s2"
    by (simp add: buildOptionKeyFromSelections_def Let_def)
qed

theorem buildOptionKey_order_independent_witness:
  "buildOptionKeyFromSelections chosen_one_way = buildOptionKeyFromSelections chosen_other_way
   \<and> buildOptionKeyFromSelections chosen_one_way = ''10:100|11:200-7''"
proof -
  have h: "keys_unique chosen_one_way \<and> keys_unique chosen_other_way
      \<and> set_equal_per_group chosen_one_way chosen_other_way"
    by code_simp
  have v: "buildOptionKeyFromSelections chosen_one_way = ''10:100|11:200-7''"
    by code_simp
  from buildOptionKey_order_independent [of chosen_one_way chosen_other_way] h v
  show ?thesis by blast
qed

lemma selection_part_body:
  "selection_part g sel = string_of_nat g @ CHR '':'' # selection_body sel"
  by (cases sel) (simp_all add: selection_part_def selection_body_def Let_def)

lemma digits_plain_id: "digits s \<Longrightarrow> plain_id s"
proof -
  assume d: "digits s"
  from digits_no_separator(4) [OF d] have "s \<noteq> ''none''" by auto
  with digits_no_separator(1,2) [OF d] show ?thesis by (simp add: plain_id_def)
qed

lemma numeric_choice_plain: "numeric_choice sel \<Longrightarrow> plain_choice sel"
  by (cases sel) (auto simp: list_all_iff digits_plain_id split: option.splits)

lemma numeric_option_ids_plain: "numeric_option_ids sels \<Longrightarrow> plain_option_ids sels"
  by (auto simp: numeric_option_ids_def plain_option_ids_def list_all_iff numeric_choice_plain)

lemma sorted_ids_plain:
  "list_all (\<lambda>(oid, ob). plain_id oid) opts \<Longrightarrow> \<forall>x \<in> set (sort (map fst opts)). plain_id x"
  by (auto simp: list_all_iff)

lemma join_plain_not_none:
  assumes "xs \<noteq> []" "\<forall>x \<in> set xs. plain_id x"
  shows "join ''-'' xs \<noteq> ''none''"
proof (cases xs)
  case Nil
  with assms(1) show ?thesis by simp
next
  case (Cons x ys)
  show ?thesis
  proof (cases ys)
    case Nil
    with Cons assms(2) show ?thesis by (simp add: plain_id_def)
  next
    case ys: (Cons y zs)
    with Cons have "CHR ''-'' \<in> set (join ''-'' xs)" by simp
    then show ?thesis by auto
  qed
qed

lemma selection_body_no_bar:
  assumes "plain_choice sel"
  shows "CHR ''|'' \<notin> set (selection_body sel)"
proof (cases sel)
  case (Single gn opt)
  with assms show ?thesis
    by (cases opt) (auto simp: selection_body_def plain_id_def)
next
  case (Multiple gn opts)
  with assms have d: "\<forall>x \<in> set (sort (map fst opts)). plain_id x"
    by (simp add: sorted_ids_plain)
  have "CHR ''|'' \<notin> set (join ''-'' (sort (map fst opts)))"
  proof
    assume "CHR ''|'' \<in> set (join ''-'' (sort (map fst opts)))"
    with set_join [of "''-''" "sort (map fst opts)"]
    have "CHR ''|'' \<in> set ''-'' \<union> \<Union> (set ` set (sort (map fst opts)))" by blast
    then obtain x where "x \<in> set (sort (map fst opts))" "CHR ''|'' \<in> set x" by auto
    with d show False by (auto simp: plain_id_def)
  qed
  with Multiple show ?thesis by (simp add: selection_body_def)
qed

lemma selection_body_inj:
  assumes "plain_choice a" "plain_choice b" "same_kind a b"
    and "selection_body a = selection_body b"
  shows "same_choice a b"
proof (cases a)
  case a: (Single gn opt)
  with assms(3) obtain gn' opt' where b: "b = Single gn' opt'" by (cases b) auto
  show ?thesis
  proof (cases opt)
    case None
    show ?thesis
    proof (cases opt')
      case None
      with \<open>opt = None\<close> a b show ?thesis by simp
    next
      case (Some ob)
      with assms(2) b have "opt_id ob \<noteq> ''none''" by (simp add: plain_id_def)
      moreover from assms(4) a b None Some have "opt_id ob = ''none''"
        by (simp add: selection_body_def)
      ultimately show ?thesis by simp
    qed
  next
    case (Some ob)
    show ?thesis
    proof (cases opt')
      case None
      from assms(1) a Some have "opt_id ob \<noteq> ''none''" by (simp add: plain_id_def)
      moreover from assms(4) a b None Some have "opt_id ob = ''none''"
        by (simp add: selection_body_def)
      ultimately show ?thesis by simp
    next
      case ob': (Some ob')
      with assms(4) a b Some show ?thesis by (simp add: selection_body_def)
    qed
  qed
next
  case a: (Multiple gn opts)
  with assms(3) obtain gn' opts' where b: "b = Multiple gn' opts'" by (cases b) auto
  let ?ids = "sort (map fst opts)" and ?ids' = "sort (map fst opts')"
  from assms(1) a have d: "\<forall>x \<in> set ?ids. plain_id x" by (simp add: sorted_ids_plain)
  from assms(2) b have d': "\<forall>x \<in> set ?ids'. plain_id x" by (simp add: sorted_ids_plain)
  have "?ids = ?ids'"
  proof (cases "?ids = []")
    case True
    show ?thesis
    proof (cases "?ids' = []")
      case True
      with \<open>?ids = []\<close> show ?thesis by simp
    next
      case False
      with True assms(4) a b have "join ''-'' ?ids' = ''none''"
        by (simp add: selection_body_def)
      with join_plain_not_none [OF False d'] show ?thesis by simp
    qed
  next
    case False
    show ?thesis
    proof (cases "?ids' = []")
      case True
      with False assms(4) a b have "join ''-'' ?ids = ''none''"
        by (simp add: selection_body_def)
      with join_plain_not_none [OF False d] show ?thesis by simp
    next
      case ne': False
      with False assms(4) a b have "join [CHR ''-''] ?ids = join [CHR ''-''] ?ids'"
        by (simp add: selection_body_def)
      moreover from d have "\<forall>x \<in> set ?ids. CHR ''-'' \<notin> set x"
        by (simp add: plain_id_def)
      moreover from d' have "\<forall>x \<in> set ?ids'. CHR ''-'' \<notin> set x"
        by (simp add: plain_id_def)
      ultimately show ?thesis using False ne' by (intro join_inj)
    qed
  qed
  then have "set ?ids = set ?ids'" by simp
  with a b show ?thesis by simp
qed

lemma selection_part_inj:
  assumes "selection_part g a = selection_part g' b"
  shows "g = g' \<and> selection_body a = selection_body b"
proof -
  have "CHR '':'' \<notin> set (string_of_nat g)" "CHR '':'' \<notin> set (string_of_nat g')"
    by (simp_all add: digits_no_separator(3) digits_string_of_nat)
  with assms have "string_of_nat g = string_of_nat g' \<and> selection_body a = selection_body b"
    unfolding selection_part_body by (intro split_at_separator)
  then show ?thesis by (auto dest: string_of_nat_inj)
qed

lemma selection_part_no_bar:
  "plain_choice sel \<Longrightarrow> CHR ''|'' \<notin> set (selection_part g sel)"
  using digits_no_separator(2) [OF digits_string_of_nat, of g]
  by (simp add: selection_part_body selection_body_no_bar)

lemma key_is_join:
  assumes "sels \<noteq> []"
  shows "buildOptionKeyFromSelections sels
     = join ''|'' (sort (map (\<lambda>(g, sel). selection_part g sel) sels))"
proof -
  let ?parts = "sort (map (\<lambda>(g, sel). selection_part g sel) sels)"
  from assms have ne: "?parts \<noteq> []"
    by (metis length_0_conv length_map length_sort)
  then have "hd ?parts \<in> set ?parts" by (rule hd_in_set)
  then have "hd ?parts \<noteq> []"
    by (auto simp: selection_part_body)
  with ne have "join ''|'' ?parts \<noteq> []" by (rule join_nonempty)
  with assms show ?thesis by (simp add: buildOptionKeyFromSelections_def Let_def)
qed

text \<open>
  C2 (as amended): two selection states with unique keys whose option ids are plain
  (no hyphen, no bar, not the word none; the decimal strings of numeric ids are plain)
  and which hold, for some group, selections of the same kind with different choices
  (a different chosen option of a single-type group, a different set of chosen options
  of a multiple-type group) get different keys from \<open>buildOptionKeyFromSelections\<close>.
\<close>

theorem buildOptionKey_distinguishes:
  "keys_unique s1 \<and> keys_unique s2 \<and> plain_option_ids s1 \<and> plain_option_ids s2
   \<and> map_of s1 g = Some a \<and> map_of s2 g = Some b \<and> same_kind a b \<and> \<not> same_choice a b
   \<longrightarrow> buildOptionKeyFromSelections s1 \<noteq> buildOptionKeyFromSelections s2"
proof (intro impI notI)
  assume h: "keys_unique s1 \<and> keys_unique s2 \<and> plain_option_ids s1 \<and> plain_option_ids s2
   \<and> map_of s1 g = Some a \<and> map_of s2 g = Some b \<and> same_kind a b \<and> \<not> same_choice a b"
    and eq: "buildOptionKeyFromSelections s1 = buildOptionKeyFromSelections s2"
  let ?parts = "\<lambda>s. map (\<lambda>(g, sel). selection_part g sel) s"
  from h have in1: "(g, a) \<in> set s1" and in2: "(g, b) \<in> set s2"
    by (auto dest: map_of_SomeD)
  then have ne: "s1 \<noteq> []" "s2 \<noteq> []" by auto
  from h have num: "\<forall>(g, sel) \<in> set s1. plain_choice sel" "\<forall>(g, sel) \<in> set s2. plain_choice sel"
    by (simp_all add: plain_option_ids_def list_all_iff)
  from num have nobar: "\<forall>x \<in> set (sort (?parts s1)). CHR ''|'' \<notin> set x"
    "\<forall>x \<in> set (sort (?parts s2)). CHR ''|'' \<notin> set x"
    by (auto simp: selection_part_no_bar)
  from ne have pne: "sort (?parts s1) \<noteq> []" "sort (?parts s2) \<noteq> []"
    by (metis length_0_conv length_map length_sort)+
  from eq ne have "join [CHR ''|''] (sort (?parts s1)) = join [CHR ''|''] (sort (?parts s2))"
    by (simp add: key_is_join)
  with nobar pne have "sort (?parts s1) = sort (?parts s2)" by (intro join_inj)
  then have "set (?parts s1) = set (?parts s2)" by (metis set_sort)
  moreover from in1 have "selection_part g a \<in> set (?parts s1)" by force
  ultimately have "selection_part g a \<in> set (?parts s2)" by simp
  then obtain g' b' where in2': "(g', b') \<in> set s2"
    and pe: "selection_part g a = selection_part g' b'" by auto
  from selection_part_inj [OF pe] have gg: "g = g'" and be: "selection_body a = selection_body b'"
    by simp_all
  from h have "distinct (map fst s2)" by (simp add: keys_unique_def)
  with in2' gg h have "b' = b" by (metis map_of_is_SomeI option.inject)
  with be have "selection_body a = selection_body b" by simp
  moreover from num in1 in2 have "plain_choice a" "plain_choice b" by auto
  ultimately have "same_choice a b" using h by (intro selection_body_inj) simp_all
  with h show False by simp
qed

theorem buildOptionKey_distinguishes_witness:
  "buildOptionKeyFromSelections chosen_one_way \<noteq> buildOptionKeyFromSelections chosen_less
   \<and> buildOptionKeyFromSelections chosen_less = ''10:100|11:200''"
proof -
  have h: "keys_unique chosen_one_way \<and> keys_unique chosen_less
     \<and> plain_option_ids chosen_one_way \<and> plain_option_ids chosen_less
     \<and> map_of chosen_one_way 11 = Some (Multiple ''toppings'' [(''200'', egg), (''7'', cheese)])
     \<and> map_of chosen_less 11 = Some (Multiple ''toppings'' [(''200'', egg)])
     \<and> same_kind (Multiple ''toppings'' [(''200'', egg), (''7'', cheese)])
          (Multiple ''toppings'' [(''200'', egg)])
     \<and> \<not> same_choice (Multiple ''toppings'' [(''200'', egg), (''7'', cheese)])
          (Multiple ''toppings'' [(''200'', egg)])"
    by code_simp
  have v: "buildOptionKeyFromSelections chosen_less = ''10:100|11:200''"
    by code_simp
  from buildOptionKey_distinguishes
    [of chosen_one_way chosen_less 11 "Multiple ''toppings'' [(''200'', egg), (''7'', cheese)]"
        "Multiple ''toppings'' [(''200'', egg)]"] h v
  show ?thesis by blast
qed

text \<open>
  The option ids 1-2, 1 and 2 are pairwise distinct, yet choosing the option 1-2 alone
  and choosing the options 1 and 2 in the same multiple-type group give one key.
\<close>

theorem buildOptionKey_distinguishes_counterexample:
  "distinct [''1-2'', ''1'', ''2'']
   \<and> keys_unique hyphen_id_chosen \<and> keys_unique two_ids_chosen
   \<and> map fst hyphen_id_chosen = map fst two_ids_chosen
   \<and> list_ex (\<lambda>(g, a). case map_of two_ids_chosen g of
                          None \<Rightarrow> False
                        | Some b \<Rightarrow> same_kind a b \<and> \<not> same_choice a b) hyphen_id_chosen
   \<and> buildOptionKeyFromSelections hyphen_id_chosen = ''11:1-2''
   \<and> buildOptionKeyFromSelections two_ids_chosen = ''11:1-2''"
  by code_simp

section \<open>Validation, confirmation and submission\<close>

lemma validate_entries_first_violation:
  "validate_entries gi sels = spec_first_violation gi sels"
proof (induction sels)
  case Nil
  show ?case by (simp add: spec_first_violation_def)
next
  case (Cons e sels)
  obtain groupId sel where e: "e = (groupId, sel)" by (cases e)
  show ?case
  proof (cases "spec_violated gi e")
    case True
    then show ?thesis
      unfolding e
      by (auto simp: spec_first_violation_def spec_violated_def split: option.splits selection.splits)
  next
    case False
    then have "spec_first_violation gi (e # sels) = spec_first_violation gi sels"
      by (simp add: spec_first_violation_def)
    moreover from False have "validate_entries gi (e # sels) = validate_entries gi sels"
      unfolding e
      by (auto simp: spec_violated_def split: option.splits selection.splits)
    ultimately show ?thesis using Cons.IH by simp
  qed
qed

text \<open>
  C5: \<open>validateSelections\<close> returns an error without a modal state; otherwise it
  returns the error that names the first group, in the order of the selections, that
  is required and violated (a single-type selection without an option, a multiple-type
  selection with an empty set), and \<open>null\<close> exactly when no required group is
  violated. When it returns an error on the add button, the handler returns the page as
  it was (cart unchanged, session still open) and shows that error; when it returns
  \<open>null\<close>, the item is committed and the session closes.
\<close>

theorem validateSelections_first_violation:
  "validateSelections None = Some NoOptionData
   \<and> validateSelections (Some ms) = spec_first_violation (groupIndex ms) (ms_selections ms)
   \<and> (validateSelections (Some ms) = None \<longleftrightarrow>
        (\<forall>e \<in> set (ms_selections ms). \<not> spec_violated (groupIndex ms) e))
   \<and> (\<forall>err. modalState p = Some ms \<and> validateSelections (modalState p) = Some err \<longrightarrow>
        onAddClick p = (Some err, p))
   \<and> (modalState p = Some ms \<and> validateSelections (modalState p) = None \<longrightarrow>
        orderState (snd (onAddClick p)) = addCustomizedItem ms (orderState p)
        \<and> modalState (snd (onAddClick p)) = None)"
proof (intro conjI allI impI)
  show "validateSelections None = Some NoOptionData"
    by (simp add: validateSelections_def)
  show fv: "validateSelections (Some ms) = spec_first_violation (groupIndex ms) (ms_selections ms)"
    by (simp add: validateSelections_def validate_entries_first_violation)
  show "(validateSelections (Some ms) = None) =
    (\<forall>e \<in> set (ms_selections ms). \<not> spec_violated (groupIndex ms) e)"
  proof (cases "find (spec_violated (groupIndex ms)) (ms_selections ms)")
    case None
    then have "\<forall>e \<in> set (ms_selections ms). \<not> spec_violated (groupIndex ms) e"
      by (auto simp: find_None_iff)
    with None show ?thesis
      unfolding fv spec_first_violation_def by auto
  next
    case (Some e)
    then have v: "spec_violated (groupIndex ms) e" and m: "e \<in> set (ms_selections ms)"
      by (auto simp: find_Some_iff)
    from v obtain grp where "groupIndex ms (fst e) = Some grp"
      by (auto simp: spec_violated_def split: option.splits)
    with Some v m show ?thesis
      unfolding fv spec_first_violation_def by (cases e) auto
  qed
next
  fix err
  assume "modalState p = Some ms \<and> validateSelections (modalState p) = Some err"
  then show "onAddClick p = (Some err, p)"
    by (auto simp: onAddClick_def)
next
  assume a: "modalState p = Some ms \<and> validateSelections (modalState p) = None"
  then show "orderState (snd (onAddClick p)) = addCustomizedItem ms (orderState p)"
    by (auto simp: onAddClick_def closeCustomization_def renderOrder_def)
  from a show "modalState (snd (onAddClick p)) = None"
    by (auto simp: onAddClick_def closeCustomization_def renderOrder_def)
qed

theorem validateSelections_first_violation_witness:
  "onAddClick sample_page = (Some (ChooseAtLeastOne ''toppings''), sample_page)
   \<and> orderState (snd (onAddClick (sample_page\<lparr>modalState := Some (onOptionChange 11 ''7'' True sample_modal)\<rparr>)))
       = addCustomizedItem (onOptionChange 11 ''7'' True sample_modal) [(''1::base'', item_a)]"
proof -
  have m: "modalState sample_page = Some sample_modal"
    by (simp add: sample_page_def)
  have v: "validateSelections (modalState sample_page) = Some (ChooseAtLeastOne ''toppings'')"
    unfolding m by code_simp
  define ms' where "ms' = onOptionChange 11 ''7'' True sample_modal"
  define p' where "p' = sample_page\<lparr>modalState := Some ms'\<rparr>"
  have m': "modalState p' = Some ms'" by (simp add: p'_def)
  have v': "validateSelections (modalState p') = None"
    unfolding m' ms'_def by code_simp
  have o: "orderState p' = [(''1::base'', item_a)]"
    by (simp add: p'_def sample_page_def)
  from validateSelections_first_violation [of sample_modal sample_page] m v
  have 1: "onAddClick sample_page = (Some (ChooseAtLeastOne ''toppings''), sample_page)"
    by blast
  from validateSelections_first_violation [of ms' p'] m' v'
  have "orderState (snd (onAddClick p')) = addCustomizedItem ms' (orderState p')"
    by blast
  with 1 o show ?thesis
    unfolding p'_def ms'_def by simp
qed









lemma addCustomizedItem_key_present:
  "\<exists>e. map_of (addCustomizedItem st cart)
          (buildItemKey (ms_menuItemId st) (buildOptionKeyFromSelections (ms_selections st))) = Some e"
  by (simp add: addCustomizedItem_def upsertOrderItem_def Let_def update_conv' split: option.split)

text \<open>
  C10: the key of a committed customized item is built from the menu item id and the
  selections only. A second customization with the same item and selections, whatever
  its special toggle, unit price and quantity, has the same key; committing it after
  the first creates no entry and adds its quantity to the existing entry, whose other
  fields stay as they are.
\<close>

theorem special_toggle_not_in_key:
  "(let k = buildItemKey (ms_menuItemId st) (buildOptionKeyFromSelections (ms_selections st));
        st' = st\<lparr>specialSelected := b, currentUnitPrice := u, ms_quantity := q\<rparr>;
        c1 = addCustomizedItem st cart;
        c2 = addCustomizedItem st' c1
    in buildItemKey (ms_menuItemId st') (buildOptionKeyFromSelections (ms_selections st')) = k
       \<and> map fst c2 = map fst c1
       \<and> (\<exists>e. map_of c1 k = Some e
              \<and> map_of c2 = (map_of c1)(k \<mapsto> e\<lparr>quantity := quantity e + q\<rparr>)))"
proof -
  define k where "k = buildItemKey (ms_menuItemId st) (buildOptionKeyFromSelections (ms_selections st))"
  define c1 where "c1 = addCustomizedItem st cart"
  from addCustomizedItem_key_present [of st cart]
  obtain e where e: "map_of c1 k = Some e" unfolding k_def c1_def by blast
  then have "k \<in> fst ` set c1" by (force dest: map_of_SomeD)
  with e show ?thesis
    unfolding Let_def k_def [symmetric] c1_def [symmetric]
    by (simp add: addCustomizedItem_def upsertOrderItem_def Let_def k_def [symmetric]
        update_conv' update_keys)
qed


theorem special_toggle_not_in_key_witness:
  "map fst (addCustomizedItem
              (sample_modal\<lparr>specialSelected := True, currentUnitPrice := Some 55, ms_quantity := 1\<rparr>)
              (addCustomizedItem sample_modal []))
     = map fst (addCustomizedItem sample_modal [])
   \<and> onSpecialToggle True sample_modal
     = sample_modal\<lparr>specialSelected := True, currentUnitPrice := Some 55, ms_quantity := 1\<rparr>
   \<and> map (\<lambda>(k, it). (k, unitPrice it, quantity it))
         (addCustomizedItem (onSpecialToggle True sample_modal) (addCustomizedItem sample_modal []))
     = [(''2::10:100|11:none'', 45, 2)]"
proof -
  from special_toggle_not_in_key
    [where st = sample_modal and b = True and u = "Some 55" and q = 1 and cart = "[]"]
  have 1: "map fst (addCustomizedItem
              (sample_modal\<lparr>specialSelected := True, currentUnitPrice := Some 55, ms_quantity := 1\<rparr>)
              (addCustomizedItem sample_modal []))
     = map fst (addCustomizedItem sample_modal [])"
    by (simp add: Let_def)
  have 2: "onSpecialToggle True sample_modal
     = sample_modal\<lparr>specialSelected := True, currentUnitPrice := Some 55, ms_quantity := 1\<rparr>"
    by code_simp
  have 3: "map (\<lambda>(k, it). (k, unitPrice it, quantity it))
         (addCustomizedItem (onSpecialToggle True sample_modal) (addCustomizedItem sample_modal []))
     = [(''2::10:100|11:none'', 45, 2)]"
    by code_simp
  from 1 2 3 show ?thesis by blast
qed

section \<open>Properties of the unit price\<close>

lemma floor_half_int: "\<lfloor>(of_int n :: rat) + 1 / 2\<rfloor> = n"
  by (rule floor_unique) simp_all

lemma toFixed2_of_int: "toFixed2 (of_int n / 100) = of_int n / 100"
proof (cases "n < 0")
  case True
  have "\<lfloor>(of_int (- n) :: rat) + 1 / 2\<rfloor> = - n" by (rule floor_half_int)
  with True show ?thesis by (simp add: toFixed2_def)
next
  case False
  have "\<lfloor>(of_int n :: rat) + 1 / 2\<rfloor> = n" by (rule floor_half_int)
  with False show ?thesis by (simp add: toFixed2_def)
qed


lemma toFixed2_is_int: "\<exists>n. toFixed2 x = of_int n / 100"
  unfolding toFixed2_def
  by (metis minus_divide_left of_int_minus)

lemma toFixed2_idem: "toFixed2 (toFixed2 x) = toFixed2 x"
  using toFixed2_is_int [of x] toFixed2_of_int by metis

lemma toFixed2_nonneg: "0 \<le> x \<Longrightarrow> toFixed2 x = of_int \<lfloor>x * 100 + 1 / 2\<rfloor> / 100"
  by (simp add: toFixed2_def)

lemma toFixed2_neg: "x < 0 \<Longrightarrow> toFixed2 x = of_int (- \<lfloor>(- x) * 100 + 1 / 2\<rfloor>) / 100"
  by (simp add: toFixed2_def)

lemma toFixed2_mono: "x \<le> y \<Longrightarrow> toFixed2 x \<le> toFixed2 y"
proof -
  assume xy: "x \<le> y"
  consider "0 \<le> x" | "x < 0" "y < 0" | "x < 0" "0 \<le> y" by linarith
  then show ?thesis
  proof cases
    case 1
    with xy have "0 \<le> y" by simp
    from xy have "\<lfloor>x * 100 + 1 / 2\<rfloor> \<le> \<lfloor>y * 100 + 1 / 2\<rfloor>"
      by (intro floor_mono) simp
    then show ?thesis
      using 1 \<open>0 \<le> y\<close> by (simp add: toFixed2_nonneg divide_right_mono)
  next
    case 2
    from xy have "\<lfloor>(- y) * 100 + 1 / 2\<rfloor> \<le> \<lfloor>(- x) * 100 + 1 / 2\<rfloor>"
      by (intro floor_mono) simp
    then show ?thesis
      using 2 by (simp add: toFixed2_def divide_right_mono)
  next
    case 3
    then have "0 \<le> \<lfloor>(- x) * 100 + 1 / 2\<rfloor>" "0 \<le> \<lfloor>y * 100 + 1 / 2\<rfloor>"
      by simp_all
    then have "toFixed2 x \<le> 0" "0 \<le> toFixed2 y"
      using 3 by (simp_all add: toFixed2_def)
    then show ?thesis by simp
  qed
qed


lemma foldl_option_prices:
  "foldl (\<lambda>t (oid, ob). t + opt_price ob) tot opts
     = tot + sum_list (map (\<lambda>(oid, ob). opt_price ob) opts)"
  by (induction opts arbitrary: tot) (auto simp: algebra_simps)

lemma add_selection_price_eq:
  "add_selection_price tot sel = tot + selection_price sel"
  by (cases sel rule: selection_price.cases)
     (simp_all add: add_selection_price_def foldl_option_prices)

lemma foldl_selection_prices:
  "foldl (\<lambda>tot (groupId, sel). add_selection_price tot sel) base sels
     = base + selections_total sels"
  unfolding selections_total_def
  by (induction sels arbitrary: base) (auto simp: add_selection_price_eq algebra_simps)

lemma calculateUnitPrice_eq:
  "calculateUnitPrice base sels = toFixed2 (base + selections_total sels)"
  by (simp add: calculateUnitPrice_def foldl_selection_prices)











lemma sum_update_multiple:
  "map_of sels g = Some (Multiple gn opts) \<Longrightarrow>
   selections_total (AList.update g (Multiple gn opts') sels)
     = selections_total sels - selection_price (Multiple gn opts) + selection_price (Multiple gn opts')"
  unfolding selections_total_def
  by (induction sels) (auto split: if_splits)

lemma sum_update_new_option:
  "oid \<notin> fst ` set opts \<Longrightarrow>
   sum_list (map (\<lambda>(oid, ob). opt_price ob) (AList.update oid ob opts))
     = sum_list (map (\<lambda>(oid, ob). opt_price ob) opts) + opt_price ob"
  by (induction opts) (auto split: if_splits)

text \<open>
  C9 (as amended): adding an option that is not yet chosen, and whose price is not
  negative, to the chosen set of a multiple-type group does not decrease the result of
  \<open>calculateUnitPrice\<close>.
\<close>

theorem calculateUnitPrice_monotone:
  "map_of sels g = Some (Multiple gn opts) \<and> oid \<notin> fst ` set opts \<and> 0 \<le> opt_price ob \<longrightarrow>
   calculateUnitPrice base sels
     \<le> calculateUnitPrice base (AList.update g (Multiple gn (AList.update oid ob opts)) sels)"
proof
  assume a: "map_of sels g = Some (Multiple gn opts) \<and> oid \<notin> fst ` set opts \<and> 0 \<le> opt_price ob"
  then have "selections_total (AList.update g (Multiple gn (AList.update oid ob opts)) sels)
      = selections_total sels + opt_price ob"
    by (simp add: sum_update_multiple sum_update_new_option)
  with a show "calculateUnitPrice base sels
     \<le> calculateUnitPrice base (AList.update g (Multiple gn (AList.update oid ob opts)) sels)"
    by (simp add: calculateUnitPrice_eq toFixed2_mono)
qed

theorem calculateUnitPrice_monotone_witness:
  "calculateUnitPrice 40 [(11, Multiple ''toppings'' [(''200'', egg)])]
     \<le> calculateUnitPrice 40 [(11, Multiple ''toppings'' [(''200'', egg), (''7'', cheese)])]"
proof -
  have h: "map_of [(11::nat, Multiple ''toppings'' [(''200'', egg)])] 11
             = Some (Multiple ''toppings'' [(''200'', egg)])
           \<and> ''7'' \<notin> fst ` set [(''200'', egg)] \<and> 0 \<le> opt_price cheese"
    by (simp add: cheese_def)
  from calculateUnitPrice_monotone
    [of "[(11, Multiple ''toppings'' [(''200'', egg)])]" 11 "''toppings''" "[(''200'', egg)]"
        "''7''" cheese 40] h
  show ?thesis by simp
qed

text \<open>
  An option with a negative price lowers the result: an item with base price 10 and a
  multiple-type group whose option is priced -5 costs 10 when the session opens and 5
  once the option is ticked.
\<close>

theorem calculateUnitPrice_monotone_counterexample:
  "openCustomization 4 ''curry'' 10 \<lparr>cfg_groups = [discount_group], cfg_special = None\<rparr> []
       empty_page
     = Some (empty_page\<lparr>modalState := Some discount_opened\<rparr>)
   \<and> ms_selections (onOptionChange 11 ''9'' True discount_opened)
     = AList.update 11 (Multiple ''extras'' (AList.update ''9'' discount []))
         (ms_selections discount_opened)
   \<and> calculateUnitPrice 10 (ms_selections discount_opened) = 10
   \<and> calculateUnitPrice 10 (ms_selections (onOptionChange 11 ''9'' True discount_opened)) = 5
   \<and> \<not> calculateUnitPrice 10 (ms_selections discount_opened)
        \<le> calculateUnitPrice 10 (ms_selections (onOptionChange 11 ''9'' True discount_opened))"
  by code_simp

section \<open>Properties of the customization session\<close>

lemma foldl_update_fresh:
  "distinct (map fst acc @ map k xs) \<Longrightarrow>
   foldl (\<lambda>m x. AList.update (k x) (v x) m) acc xs = acc @ map (\<lambda>x. (k x, v x)) xs"
proof (induction xs arbitrary: acc)
  case Nil
  then show ?case by simp
next
  case (Cons x xs)
  from Cons.prems have "map_of acc (k x) = None"
    by (auto simp: map_of_eq_None_iff)
  then have u: "AList.update (k x) (v x) acc = acc @ [(k x, v x)]"
    by (rule update_absent_append)
  from Cons.prems have "distinct (map fst (acc @ [(k x, v x)]) @ map k xs)" by auto
  from Cons.IH [OF this] u show ?case by simp
qed

lemma initializeSelections_distinct:
  "distinct (map group_id grps) \<Longrightarrow>
   initializeSelections grps = map (\<lambda>grp. (group_id grp, initial_selection grp)) grps"
  unfolding initializeSelections_def
  using foldl_update_fresh [of "[]" group_id grps initial_selection] by simp

lemma initializeSelections_lookup:
  assumes "distinct (map group_id grps)" "grp \<in> set grps"
  shows "map_of (initializeSelections grps) (group_id grp) = Some (initial_selection grp)"
proof -
  from assms(1) have "distinct (map fst (map (\<lambda>grp. (group_id grp, initial_selection grp)) grps))"
    by (simp add: comp_def)
  moreover from assms(2)
  have "(group_id grp, initial_selection grp) \<in> set (map (\<lambda>grp. (group_id grp, initial_selection grp)) grps)"
    by auto
  ultimately show ?thesis
    unfolding initializeSelections_distinct [OF assms(1)] by (rule map_of_is_SomeI)
qed

lemma renderGroup_initial:
  "map_of sels (group_id grp) = Some (initial_selection grp) \<Longrightarrow> renderGroup grp sels = Some sels"
  by (auto simp: renderGroup_def initial_selection_def split: list.splits)

lemma renderGroups_initial:
  "\<forall>grp \<in> set grps. map_of sels (group_id grp) = Some (initial_selection grp) \<Longrightarrow>
   renderGroups grps sels = Some sels"
  by (induction grps) (simp_all add: renderGroup_initial)

lemma updateModalSummary_idem:
  "updateModalSummary (updateModalSummary ms) = updateModalSummary ms"
  by (cases "specialInfo ms") (simp_all add: updateModalSummary_def Let_def)

lemma groupIndex_distinct:
  assumes "distinct (map group_id (ms_groups ms))" "grp \<in> set (ms_groups ms)"
  shows "groupIndex ms (group_id grp) = Some grp"
proof -
  have "distinct (map fst (rev (map (\<lambda>grp. (group_id grp, grp)) (ms_groups ms))))"
    using assms(1) by (simp add: comp_def rev_map [symmetric])
  moreover have "(group_id grp, grp) \<in> set (rev (map (\<lambda>grp. (group_id grp, grp)) (ms_groups ms)))"
    using assms(2) by auto
  ultimately show ?thesis unfolding groupIndex_def by (rule map_of_is_SomeI)
qed

text \<open>
  C8: when a customization session opens on a catalog entry with pairwise distinct group
  ids, every required single-type group with at least one option has its first option
  selected, stored as the object that the change handler stores for a choice of the
  user: choosing that option by hand leaves the session state, and so its price and
  key, as it is. For the item with id 2 and base price 40 and one required single-type
  group 10 with the option 100 priced 5, opening the session selects option 100, the
  unit price is 45, the option key is 10:100, and confirming puts one entry of unit
  price 45 into the cart.
\<close>

theorem required_single_group_default:
  "(distinct (map group_id grps) \<and> grp \<in> set grps \<and> selection_type grp = ''single''
     \<and> is_required grp \<and> group_options grp = opt0 # others \<longrightarrow>
     (\<exists>ms. openCustomization mid nm base \<lparr>cfg_groups = grps, cfg_special = sp\<rparr> descr p
             = Some (p\<lparr>modalState := Some ms\<rparr>)
           \<and> map_of (ms_selections ms) (group_id grp)
             = Some (Single (group_name grp) (Some (selected_option opt0)))
           \<and> onOptionChange (group_id grp) (string_of_nat (mo_id opt0)) True ms = ms))
   \<and> openCustomization 2 ''noodles'' 40 scenario_config [] empty_page
       = Some (empty_page\<lparr>modalState := Some scenario_modal\<rparr>)
   \<and> currentUnitPrice scenario_modal = Some 45
   \<and> buildOptionKeyFromSelections (ms_selections scenario_modal) = ''10:100''
   \<and> map (\<lambda>(k, it). (k, unitPrice it, quantity it))
         (orderState (snd (onAddClick (empty_page\<lparr>modalState := Some scenario_modal\<rparr>))))
       = [(''2::10:100'', 45, 1)]"
proof (intro conjI impI)
  assume a: "distinct (map group_id grps) \<and> grp \<in> set grps \<and> selection_type grp = ''single''
     \<and> is_required grp \<and> group_options grp = opt0 # others"
  define sels where "sels = initializeSelections grps"
  define ms0 where "ms0 = \<lparr>ms_menuItemId = mid, ms_name = nm, basePrice = base, ms_quantity = 1,
      ms_groups = grps, ms_selections = sels, currentUnitPrice = Some base,
      specialInfo = (case sp of None \<Rightarrow> None
                      | Some sc \<Rightarrow>
                          Some \<lparr>si_label = (if sc_label sc = [] then default_special_label
                                             else sc_label sc),
                                si_price = (case price_delta sc of Some d \<Rightarrow> d | None \<Rightarrow> 0)\<rparr>),
      specialSelected = False\<rparr>"
  define ms where "ms = updateModalSummary ms0"
  from a have ne: "grps \<noteq> []" by auto
  from a have look: "\<forall>g \<in> set grps. map_of sels (group_id g) = Some (initial_selection g)"
    unfolding sels_def by (simp add: initializeSelections_lookup)
  then have rg: "renderGroups grps sels = Some sels" by (rule renderGroups_initial)
  have op: "openCustomization mid nm base \<lparr>cfg_groups = grps, cfg_special = sp\<rparr> descr p
             = Some (p\<lparr>modalState := Some ms\<rparr>)"
    using ne rg
    by (simp add: openCustomization_def Let_def sels_def [symmetric] ms_def ms0_def)
  have fields: "ms_selections ms = sels" "ms_groups ms = grps"
    by (simp_all add: ms_def ms0_def updateModalSummary_def Let_def)
  from a have ini: "initial_selection grp = Single (group_name grp) (Some (selected_option opt0))"
    by (simp add: initial_selection_def)
  with look a have sel: "map_of (ms_selections ms) (group_id grp)
      = Some (Single (group_name grp) (Some (selected_option opt0)))"
    by (simp add: fields)
  from a have gi: "groupIndex ms (group_id grp) = Some grp"
    by (simp add: groupIndex_distinct fields)
  with a have god: "getOptionData ms (group_id grp) (string_of_nat (mo_id opt0)) = Some opt0"
    by (simp add: getOptionData_def)
  from sel have triv: "AList.update (group_id grp)
      (Single (group_name grp) (Some (selected_option opt0))) (ms_selections ms) = ms_selections ms"
    by (rule update_triv)
  have "onOptionChange (group_id grp) (string_of_nat (mo_id opt0)) True ms = updateModalSummary ms"
    by (simp add: onOptionChange_def sel god string_of_nat_nonempty triv Let_def)
  then have ch: "onOptionChange (group_id grp) (string_of_nat (mo_id opt0)) True ms = ms"
    by (simp add: ms_def updateModalSummary_idem)
  from op sel ch
  show "\<exists>ms. openCustomization mid nm base \<lparr>cfg_groups = grps, cfg_special = sp\<rparr> descr p
             = Some (p\<lparr>modalState := Some ms\<rparr>)
           \<and> map_of (ms_selections ms) (group_id grp)
             = Some (Single (group_name grp) (Some (selected_option opt0)))
           \<and> onOptionChange (group_id grp) (string_of_nat (mo_id opt0)) True ms = ms"
    by blast
next
  show "openCustomization 2 ''noodles'' 40 scenario_config [] empty_page
       = Some (empty_page\<lparr>modalState := Some scenario_modal\<rparr>)"
    by code_simp
next
  show "currentUnitPrice scenario_modal = Some 45"
    by (simp add: scenario_modal_def)
next
  show "buildOptionKeyFromSelections (ms_selections scenario_modal) = ''10:100''"
    by code_simp
next
  show "map (\<lambda>(k, it). (k, unitPrice it, quantity it))
         (orderState (snd (onAddClick (empty_page\<lparr>modalState := Some scenario_modal\<rparr>))))
       = [(''2::10:100'', 45, 1)]"
    by code_simp
qed

theorem required_single_group_default_witness:
  "\<exists>ms. openCustomization 2 ''noodles'' 40
          \<lparr>cfg_groups = [sample_single_group, sample_multiple_group], cfg_special = None\<rparr>
          [] empty_page
        = Some (empty_page\<lparr>modalState := Some ms\<rparr>)
      \<and> map_of (ms_selections ms) 10 = Some (Single ''size'' (Some large))
      \<and> onOptionChange 10 ''100'' True ms = ms"
proof -
  have h: "distinct (map group_id [sample_single_group, sample_multiple_group])
     \<and> sample_single_group \<in> set [sample_single_group, sample_multiple_group]
     \<and> selection_type sample_single_group = ''single''
     \<and> is_required sample_single_group
     \<and> group_options sample_single_group
         = \<lparr>mo_id = 100, mo_name = ''large'', mo_price = Some 5\<rparr> # []"
    by (simp add: sample_single_group_def sample_multiple_group_def)
  have v: "group_id sample_single_group = 10" "group_name sample_single_group = ''size''"
    "selected_option \<lparr>mo_id = 100, mo_name = ''large'', mo_price = Some 5\<rparr> = large"
    "string_of_nat (mo_id \<lparr>mo_id = 100, mo_name = ''large'', mo_price = Some 5\<rparr>) = ''100''"
    by code_simp+
  from required_single_group_default
    [where grps = "[sample_single_group, sample_multiple_group]" and grp = sample_single_group
       and ?opt0.0 = "\<lparr>mo_id = 100, mo_name = ''large'', mo_price = Some 5\<rparr>" and others = "[]"
       and mid = 2 and nm = "''noodles''" and base = 40 and sp = None and descr = "[]"
       and p = empty_page] h
  have "\<exists>ms. openCustomization 2 ''noodles'' 40
          \<lparr>cfg_groups = [sample_single_group, sample_multiple_group], cfg_special = None\<rparr>
          [] empty_page
        = Some (empty_page\<lparr>modalState := Some ms\<rparr>)
      \<and> map_of (ms_selections ms) (group_id sample_single_group)
         = Some (Single (group_name sample_single_group)
              (Some (selected_option \<lparr>mo_id = 100, mo_name = ''large'', mo_price = Some 5\<rparr>)))
      \<and> onOptionChange (group_id sample_single_group)
           (string_of_nat (mo_id \<lparr>mo_id = 100, mo_name = ''large'', mo_price = Some 5\<rparr>)) True ms = ms"
    by blast
  then show ?thesis by (simp only: v)
qed


subsection \<open>The session keeps its selections well formed\<close>

lemma well_formed_iff:
  "well_formed sels \<longleftrightarrow> distinct (map fst sels) \<and> list_all (\<lambda>(g, sel). entry_ok sel) sels"
  by (auto simp: well_formed_def keys_unique_def numeric_option_ids_def entry_ok_def list_all_iff)

lemma list_all_update:
  "list_all P al \<Longrightarrow> P (k, v) \<Longrightarrow> list_all P (AList.update k v al)"
  by (induction al) auto

lemma list_all_delete: "list_all P al \<Longrightarrow> list_all P (AList.delete k al)"
  by (induction al) auto

lemma well_formed_update:
  "well_formed sels \<Longrightarrow> entry_ok sel \<Longrightarrow> well_formed (AList.update g sel sels)"
  by (simp add: well_formed_iff distinct_update list_all_update)

lemma digits_selected_option: "digits (opt_id (selected_option mo))"
  by (simp add: selected_option_def digits_string_of_nat)

lemma entry_ok_initial: "entry_ok (initial_selection grp)"
  by (simp add: entry_ok_def initial_selection_def digits_selected_option split: list.split)

lemma well_formed_foldl_initial:
  "well_formed acc \<Longrightarrow>
   well_formed (foldl (\<lambda>sels grp. AList.update (group_id grp) (initial_selection grp) sels) acc grps)"
  by (induction grps arbitrary: acc) (simp_all add: well_formed_update entry_ok_initial)

lemma well_formed_initializeSelections: "well_formed (initializeSelections grps)"
  unfolding initializeSelections_def
  by (rule well_formed_foldl_initial) (simp add: well_formed_iff)

lemma well_formed_renderGroup:
  "well_formed sels \<Longrightarrow> renderGroup grp sels = Some sels' \<Longrightarrow> well_formed sels'"
  by (auto simp: renderGroup_def Let_def well_formed_update entry_ok_def digits_selected_option
      split: if_splits list.splits option.splits selection.splits)

lemma well_formed_renderGroups:
  "well_formed sels \<Longrightarrow> renderGroups grps sels = Some sels' \<Longrightarrow> well_formed sels'"
  by (induction grps arbitrary: sels) (auto split: option.splits dest: well_formed_renderGroup)

lemma ms_selections_updateModalSummary [simp]:
  "ms_selections (updateModalSummary ms) = ms_selections ms"
  by (simp add: updateModalSummary_def Let_def)

lemma well_formed_lookup:
  "well_formed sels \<Longrightarrow> map_of sels g = Some sel \<Longrightarrow> entry_ok sel"
  by (auto simp: well_formed_iff list_all_iff dest!: map_of_SomeD)

lemma well_formed_onOptionChange:
  assumes "well_formed (ms_selections ms)"
  shows "well_formed (ms_selections (onOptionChange g oid checked ms))"
proof (cases "map_of (ms_selections ms) g")
  case None
  with assms show ?thesis by (simp add: onOptionChange_def)
next
  case (Some sel)
  with assms have ok: "entry_ok sel" by (rule well_formed_lookup)
  show ?thesis
  proof (cases sel)
    case (Single gn opt)
    with Some assms show ?thesis
      by (auto simp: onOptionChange_def Let_def well_formed_update entry_ok_def
          digits_selected_option split: option.splits)
  next
    case (Multiple gn opts)
    from ok Multiple have d: "distinct (map fst opts)" and n: "list_all (\<lambda>(oid, ob). digits oid) opts"
      by (simp_all add: entry_ok_def)
    have 1: "entry_ok (Multiple gn (AList.delete oid opts))"
      using d n by (simp add: entry_ok_def distinct_delete list_all_delete)
    have 2: "entry_ok (Multiple gn (AList.update (string_of_nat (mo_id od)) (selected_option od) opts))"
      for od
      using d n by (simp add: entry_ok_def distinct_update list_all_update digits_string_of_nat)
    from Some Multiple assms 1 2 show ?thesis
      by (auto simp: onOptionChange_def Let_def well_formed_update split: option.splits)
  qed
qed

lemma well_formed_openCustomization:
  assumes "openCustomization mid nm base config descr p = Some p'"
    and "modalState p' = Some ms" "modalState p = None"
  shows "well_formed (ms_selections ms)"
proof (cases "cfg_special config = None \<and> cfg_groups config = []")
  case True
  with assms show ?thesis
    by (auto simp: openCustomization_def renderOrder_def)
next
  case False
  with assms(1) obtain sels where
    r: "renderGroups (cfg_groups config) (initializeSelections (cfg_groups config)) = Some sels"
    by (auto simp: openCustomization_def Let_def split: option.splits)
  then have w: "well_formed sels"
    using well_formed_initializeSelections well_formed_renderGroups by blast
  from False assms(1,2) r have "ms_selections ms = sels"
    by (auto simp: openCustomization_def Let_def)
  with w show ?thesis by simp
qed

end
